theory Spec2Isabelle
  imports Complex_Main "HOL-Library.List_Lexorder"
begin

section \<open>Python values used by the pipeline\<close>

text \<open>
  A Python \<open>str\<close> is a sequence of Unicode code points; it is modelled as the list of
  these code points. Slicing, \<open>len\<close> and the comparison of two strings (lexicographic
  on code points, the order of the library theory List_Lexorder) then count
  what Python counts.
\<close>

type_synonym pystr = "nat list"

definition lit :: "string \<Rightarrow> pystr" where
  "lit s = map of_char s"

text \<open>\<open>str.isspace\<close> on one code point: the code points that \<open>str.strip()\<close> removes.\<close>

definition isspace :: "nat \<Rightarrow> bool" where
  "isspace c \<longleftrightarrow>
     (9 \<le> c \<and> c \<le> 13) \<or> (28 \<le> c \<and> c \<le> 32) \<or> c = 133 \<or> c = 160 \<or> c = 5760 \<or>
     (8192 \<le> c \<and> c \<le> 8202) \<or> c = 8232 \<or> c = 8233 \<or> c = 8239 \<or> c = 8287 \<or> c = 12288"

definition str_strip :: "pystr \<Rightarrow> pystr" where
  "str_strip s = rev (dropWhile isspace (rev (dropWhile isspace s)))"


definition startswith :: "pystr \<Rightarrow> pystr \<Rightarrow> bool" where
  "startswith s p \<longleftrightarrow> take (length p) s = p"

text \<open>
  \<open>str.splitlines()\<close>: the line boundaries are \<open>\n\<close>, \<open>\r\<close>, \<open>\r\n\<close>, \<open>\v\<close>, \<open>\f\<close>,
  \<open>\x1c\<close>, \<open>\x1d\<close>, \<open>\x1e\<close>, \<open>\x85\<close>, U+2028 and U+2029; the boundaries are not
  kept, and a text that ends with a boundary has no empty last line. The first argument
  holds the code points of the current line, latest first.
\<close>

definition is_linebreak :: "nat \<Rightarrow> bool" where
  "is_linebreak c \<longleftrightarrow>
     (10 \<le> c \<and> c \<le> 13) \<or> (28 \<le> c \<and> c \<le> 30) \<or> c = 133 \<or> c = 8232 \<or> c = 8233"

fun splitlines_from :: "pystr \<Rightarrow> pystr \<Rightarrow> pystr list" where
  "splitlines_from cur [] = (if cur = [] then [] else [rev cur])"
| "splitlines_from cur [c] =
     (if is_linebreak c then [rev cur] else [rev (c # cur)])"
| "splitlines_from cur (c # d # cs) =
     (if c = 13 \<and> d = 10 then rev cur # splitlines_from [] cs
      else if is_linebreak c then rev cur # splitlines_from [] (d # cs)
      else splitlines_from (c # cur) (d # cs))"

definition splitlines :: "pystr \<Rightarrow> pystr list" where
  "splitlines s = splitlines_from [] s"

section \<open>Errors and the file system\<close>

text \<open>
  Every exception the program can raise is a value; the ones raised by \<open>main.py\<close> itself
  carry their message.
\<close>

datatype error =
    FileNotFoundError pystr
  | ValueError pystr
  | RuntimeError pystr
  | KeyError pystr
  | InvalidPlaceholder
  | IsADirectoryError
  | FileExistsError
  | NotADirectoryError
  | UnicodeEncodeError
  | IndexError
  | APIError pystr

text \<open>
  A path is the text \<open>str(path)\<close>. A file holds its decoded text (the program reads and
  writes text only, on a POSIX system, where writing leaves \<open>\n\<close> as it is); a directory
  is a node of its own, so that \<open>exists()\<close> is true of it and reading or writing it
  fails.
\<close>

type_synonym path = pystr

datatype node = File pystr | Dir

type_synonym filesystem = "path \<Rightarrow> node option"

text \<open>
  \<open>Path.read_text\<close> opens the file in text mode with universal newlines: \<open>\r\n\<close> and a
  lone \<open>\r\<close> (13) are read as \<open>\n\<close> (10).
\<close>

fun universal_newlines :: "pystr \<Rightarrow> pystr" where
  "universal_newlines [] = []"
| "universal_newlines [c] = (if c = 13 then [10] else [c])"
| "universal_newlines (c # d # cs) =
     (if c = 13 \<and> d = 10 then 10 # universal_newlines cs
      else if c = 13 then 10 # universal_newlines (d # cs)
      else c # universal_newlines (d # cs))"

definition read_text :: "filesystem \<Rightarrow> path \<Rightarrow> error + pystr" where
  "read_text fs p =
     (case fs p of
        None \<Rightarrow> Inl (FileNotFoundError p)
      | Some Dir \<Rightarrow> Inl IsADirectoryError
      | Some (File text) \<Rightarrow> Inr (universal_newlines text))"

section \<open>Configuration\<close>

definition FEEDS_FILE :: path where
  "FEEDS_FILE = lit ''rss_feeds.txt''"

text \<open>The loop of \<open>load_rss_feeds\<close>: \<open>feeds\<close> is the list built so far.\<close>

fun load_rss_feeds_loop :: "pystr list \<Rightarrow> pystr list \<Rightarrow> pystr list" where
  "load_rss_feeds_loop feeds [] = feeds"
| "load_rss_feeds_loop feeds (raw_line # rest) =
     (let line = str_strip raw_line in
      if line = [] \<or> startswith line (lit ''#'')
      then load_rss_feeds_loop feeds rest
      else load_rss_feeds_loop (feeds @ [line]) rest)"

definition load_rss_feeds :: "filesystem \<Rightarrow> path \<Rightarrow> error + pystr list" where
  "load_rss_feeds fs p =
     (if fs p = None then Inl (FileNotFoundError (lit ''RSS feeds file not found: '' @ p))
      else case read_text fs p of
        Inl e \<Rightarrow> Inl e
      | Inr text \<Rightarrow>
          (let feeds = load_rss_feeds_loop [] (splitlines text) in
           if feeds = [] then Inl (ValueError (lit ''No feeds defined in '' @ p))
           else Inr feeds))"


definition ENV_FILE :: path where
  "ENV_FILE = lit ''.env.local''"

text \<open>
  The process environment \<open>os.environ\<close> is a dictionary from names to values.
  \<open>os.environ.setdefault(key, value)\<close> looks the name up, which encodes it for the
  operating system (UTF-8 with \<open>surrogateescape\<close>: a surrogate outside U+DC80 to U+DCFF
  cannot be encoded); when the name has no value it encodes the value and calls
  \<open>putenv\<close>, which refuses a NUL in the name or the value and a name that is empty or
  holds \<open>=\<close>; only then the value is stored. A name that has a value is left alone.
\<close>

type_synonym environ = "pystr \<Rightarrow> pystr option"

definition is_surrogate :: "nat \<Rightarrow> bool" where
  "is_surrogate c \<longleftrightarrow> 55296 \<le> c \<and> c \<le> 57343"







text \<open>
  The prompt template is kept as the text read; \<open>Template(contents)\<close> does not parse
  it.
\<close>

definition PROMPT_TEMPLATE_FILE :: path where
  "PROMPT_TEMPLATE_FILE = lit ''prompt_template.md''"

definition load_prompt_template :: "filesystem \<Rightarrow> path \<Rightarrow> error + pystr" where
  "load_prompt_template fs p =
     (if fs p = None then Inl (FileNotFoundError (lit ''Prompt template not found: '' @ p))
      else read_text fs p)"

text \<open>
  The module globals: \<open>OPENAI_MODEL\<close> is a constant of the source, \<open>RSS_FEEDS\<close> and
  \<open>PROMPT_TEMPLATE\<close> are loaded from their files when the module starts.
\<close>

definition OPENAI_MODEL :: pystr where
  "OPENAI_MODEL = lit ''gpt-5-nano''"

definition MAX_ARTICLES :: nat where
  "MAX_ARTICLES = 15"

record globals =
  openai_model :: pystr
  rss_feeds :: "pystr list"
  prompt_template :: pystr

definition load_globals :: "filesystem \<Rightarrow> error + globals" where
  "load_globals fs =
     (case load_rss_feeds fs FEEDS_FILE of
        Inl e \<Rightarrow> Inl e
      | Inr feeds \<Rightarrow>
          (case load_prompt_template fs PROMPT_TEMPLATE_FILE of
             Inl e \<Rightarrow> Inl e
           | Inr tmpl \<Rightarrow>
               Inr \<lparr>openai_model = OPENAI_MODEL, rss_feeds = feeds, prompt_template = tmpl\<rparr>))"

section \<open>Helpers\<close>

text \<open>
  The clock gives the current UTC date. \<open>strftime("%Y-%m-%d")\<close> writes the year in
  decimal and the month and the day with two digits.
\<close>

record date =
  year :: nat
  month :: nat
  day :: nat

definition digit :: "nat \<Rightarrow> nat" where
  "digit d = 48 + d"

function str_nat :: "nat \<Rightarrow> pystr" where
  "str_nat n = (if n < 10 then [digit n] else str_nat (n div 10) @ [digit (n mod 10)])"
  by pat_completeness auto
termination
  by (relation "measure id") auto

declare str_nat.simps [simp del]

definition two_digits :: "nat \<Rightarrow> pystr" where
  "two_digits n = [digit (n div 10), digit (n mod 10)]"

definition get_today_str :: "date \<Rightarrow> pystr" where
  "get_today_str now =
     str_nat (year now) @ lit ''-'' @ two_digits (month now) @ lit ''-'' @ two_digits (day now)"


section \<open>Fetching the articles\<close>

text \<open>
  What \<open>feedparser.parse\<close> returns, as far as the program reads it: the title of the
  feed, if it has one, and the entries; of an entry, the attributes that \<open>getattr\<close>
  looks up, \<open>None\<close> where the attribute is missing.
\<close>

record entry =
  entry_title :: "pystr option"
  entry_link :: "pystr option"
  entry_summary :: "pystr option"
  entry_description :: "pystr option"
  entry_published :: "pystr option"
  entry_updated :: "pystr option"

record parsed_feed =
  feed_title :: "pystr option"
  entries :: "entry list"

record article =
  title :: pystr
  link :: pystr
  summary :: pystr
  published :: pystr
  source :: pystr

text \<open>\<open>getattr(entry, name, "")\<close> and the \<open>or\<close> of two strings.\<close>

definition getattr_str :: "pystr option \<Rightarrow> pystr" where
  "getattr_str v = (case v of None \<Rightarrow> [] | Some s \<Rightarrow> s)"

definition str_or :: "pystr \<Rightarrow> pystr \<Rightarrow> pystr" where
  "str_or a b = (if a = [] then b else a)"

text \<open>The body of the inner loop: \<open>None\<close> is its \<open>continue\<close>.\<close>

definition extract_entry :: "pystr \<Rightarrow> parsed_feed \<Rightarrow> entry \<Rightarrow> article option" where
  "extract_entry feed_url parsed e =
     (let t = str_strip (getattr_str (entry_title e));
          l = str_strip (getattr_str (entry_link e));
          s = str_or (getattr_str (entry_summary e)) (getattr_str (entry_description e));
          p = str_or (getattr_str (entry_published e)) (getattr_str (entry_updated e))
      in if t = [] \<or> l = [] then None
         else Some \<lparr>title = t, link = l, summary = s, published = p,
                     source = (case feed_title parsed of None \<Rightarrow> feed_url | Some ft \<Rightarrow> ft)\<rparr>)"

fun fetch_entries :: "article list \<Rightarrow> pystr \<Rightarrow> parsed_feed \<Rightarrow> entry list \<Rightarrow> article list" where
  "fetch_entries articles feed_url parsed [] = articles"
| "fetch_entries articles feed_url parsed (e # es) =
     (case extract_entry feed_url parsed e of
        None \<Rightarrow> fetch_entries articles feed_url parsed es
      | Some a \<Rightarrow> fetch_entries (articles @ [a]) feed_url parsed es)"

text \<open>
  The outer loop. The network is the function \<open>parse\<close>: the answer to the \<open>i\<close>-th
  request of the run, made for the URL given (a URL listed twice may be answered
  differently each time).
\<close>

fun fetch_feeds ::
  "(nat \<Rightarrow> pystr \<Rightarrow> parsed_feed) \<Rightarrow> nat \<Rightarrow> article list \<Rightarrow> pystr list \<Rightarrow> article list" where
  "fetch_feeds parse i articles [] = articles"
| "fetch_feeds parse i articles (feed_url # urls) =
     fetch_feeds parse (Suc i)
       (fetch_entries articles feed_url (parse i feed_url) (entries (parse i feed_url))) urls"

text \<open>
  A Python dictionary keeps its keys in the order of their first insertion; assigning to
  a key that is present replaces the value where it stands.
\<close>

fun dict_set :: "'k \<Rightarrow> 'v \<Rightarrow> ('k \<times> 'v) list \<Rightarrow> ('k \<times> 'v) list" where
  "dict_set k v [] = [(k, v)]"
| "dict_set k v ((k', v') # kvs) =
     (if k' = k then (k', v) # kvs else (k', v') # dict_set k v kvs)"

definition dict_values :: "('k \<times> 'v) list \<Rightarrow> 'v list" where
  "dict_values kvs = map snd kvs"

fun dedup_loop :: "(pystr \<times> article) list \<Rightarrow> article list \<Rightarrow> (pystr \<times> article) list" where
  "dedup_loop unique [] = unique"
| "dedup_loop unique (a # as) = dedup_loop (dict_set (link a) a unique) as"

definition deduplicate :: "article list \<Rightarrow> article list" where
  "deduplicate articles = dict_values (dedup_loop [] articles)"

text \<open>
  \<open>list.sort(key=f, reverse=True)\<close> is stable: elements with equal keys keep their order.
  It is the stable ascending sort of the reversed list, reversed.
\<close>

definition sort_reverse :: "('a \<Rightarrow> 'k::linorder) \<Rightarrow> 'a list \<Rightarrow> 'a list" where
  "sort_reverse f xs = rev (sort_key f (rev xs))"

definition sort_key_fn :: "article \<Rightarrow> pystr" where
  "sort_key_fn a = published a"

definition fetch_articles :: "globals \<Rightarrow> (nat \<Rightarrow> pystr \<Rightarrow> parsed_feed) \<Rightarrow> article list" where
  "fetch_articles g parse =
     take MAX_ARTICLES
       (sort_reverse sort_key_fn (deduplicate (fetch_feeds parse 0 [] (rss_feeds g))))"


section \<open>Building the prompt\<close>

fun build_lines :: "nat \<Rightarrow> pystr list \<Rightarrow> article list \<Rightarrow> pystr list" where
  "build_lines idx lines [] = lines"
| "build_lines idx lines (a # as) =
     build_lines (Suc idx)
       (lines @
        [str_nat idx @ lit ''. Title: '' @ title a @ lit ''\<newline>'' @
         lit ''   Source: '' @ source a @ lit ''\<newline>'' @
         lit ''   Published: '' @ published a @ lit ''\<newline>'' @
         lit ''   URL: '' @ link a @ lit ''\<newline>'' @
         lit ''   Summary/Excerpt: '' @ take 500 (summary a) @ lit ''\<newline>''])
       as"

fun str_join :: "pystr \<Rightarrow> pystr list \<Rightarrow> pystr" where
  "str_join sep [] = []"
| "str_join sep [x] = x"
| "str_join sep (x # y # ys) = x @ sep @ str_join sep (y # ys)"

definition build_articles_block :: "article list \<Rightarrow> pystr" where
  "build_articles_block articles = str_join (lit ''\<newline>'') (build_lines 1 [] articles)"

text \<open>
  \<open>string.Template.substitute\<close>. After the delimiter \<open>$\<close> (36) the template's pattern
  tries, in this order: a second \<open>$\<close> (the escape), an identifier
  \<open>[_a-zA-Z][_a-zA-Z0-9]*\<close> as long as it goes, such an identifier in braces, and
  otherwise reports an invalid placeholder. \<open>match_placeholder\<close> takes the text after
  the \<open>$\<close> and returns what was matched and the text after the match.
\<close>

definition is_id_start :: "nat \<Rightarrow> bool" where
  "is_id_start c \<longleftrightarrow> c = 95 \<or> (65 \<le> c \<and> c \<le> 90) \<or> (97 \<le> c \<and> c \<le> 122)"

definition is_id_char :: "nat \<Rightarrow> bool" where
  "is_id_char c \<longleftrightarrow> is_id_start c \<or> (48 \<le> c \<and> c \<le> 57)"

datatype placeholder = Escaped | Named pystr | Invalid

definition match_placeholder :: "pystr \<Rightarrow> placeholder \<times> pystr" where
  "match_placeholder cs =
     (case cs of
        [] \<Rightarrow> (Invalid, [])
      | d # ds \<Rightarrow>
          if d = 36 then (Escaped, ds)
          else if is_id_start d then (Named (takeWhile is_id_char cs), dropWhile is_id_char cs)
          else if d = 123 \<and> (case ds of [] \<Rightarrow> False | n # _ \<Rightarrow> is_id_start n) \<and>
                  (case dropWhile is_id_char ds of [] \<Rightarrow> False | b # _ \<Rightarrow> b = 125)
          then (Named (takeWhile is_id_char ds), tl (dropWhile is_id_char ds))
          else (Invalid, cs))"

lemma match_placeholder_length: "length (snd (match_placeholder cs)) \<le> length cs"
proof (cases cs)
  case Nil
  then show ?thesis by (simp add: match_placeholder_def)
next
  case (Cons d ds)
  have a: "length (dropWhile is_id_char cs) \<le> length cs"
    by (rule length_dropWhile_le)
  have b: "length (tl (dropWhile is_id_char ds)) \<le> Suc (length ds)"
    using length_dropWhile_le [of is_id_char ds] by simp
  from Cons a b show ?thesis
    by (simp add: match_placeholder_def)
qed

function substitute :: "(pystr \<Rightarrow> pystr option) \<Rightarrow> pystr \<Rightarrow> error + pystr" where
  "substitute m [] = Inr []"
| "substitute m (c # cs) =
     (if c \<noteq> 36 then
        (case substitute m cs of Inl e \<Rightarrow> Inl e | Inr r \<Rightarrow> Inr (c # r))
      else
        (case fst (match_placeholder cs) of
           Invalid \<Rightarrow> Inl InvalidPlaceholder
         | Escaped \<Rightarrow>
             (case substitute m (snd (match_placeholder cs)) of
                Inl e \<Rightarrow> Inl e
              | Inr r \<Rightarrow> Inr (36 # r))
         | Named name \<Rightarrow>
             (case m name of
                None \<Rightarrow> Inl (KeyError name)
              | Some v \<Rightarrow>
                  (case substitute m (snd (match_placeholder cs)) of
                     Inl e \<Rightarrow> Inl e
                   | Inr r \<Rightarrow> Inr (v @ r)))))"
  by pat_completeness auto
termination
  by (relation "measure (\<lambda>(m, s). length s)")
     (auto simp: match_placeholder_length less_Suc_eq_le)

declare substitute.simps(2) [simp del]

definition build_llm_prompt :: "globals \<Rightarrow> date \<Rightarrow> article list \<Rightarrow> error + pystr" where
  "build_llm_prompt g now articles =
     (let articles_block = build_articles_block articles in
      substitute
        [lit ''today'' \<mapsto> get_today_str now, lit ''articles_block'' \<mapsto> articles_block]
        (prompt_template g))"


section \<open>Generating the report\<close>

text \<open>
  \<open>str.lower()\<close> on the letters \<open>A\<close> to \<open>Z\<close>. Beyond ASCII Python consults the Unicode
  case table, and no code point there has a lower case made of the characters of
  \<open>gpt-5-nano\<close>, so the comparison below does not depend on it.
\<close>

definition str_lower :: "pystr \<Rightarrow> pystr" where
  "str_lower s = map (\<lambda>c. if 65 \<le> c \<and> c \<le> 90 then c + 32 else c) s"

record message =
  role :: pystr
  content :: pystr

text \<open>
  The keyword arguments of the request; \<open>temperature\<close> is \<open>None\<close> when the key is not in
  the dictionary, and the literal \<open>0.4\<close> of the source is the number four tenths.
\<close>

record request =
  model :: pystr
  messages :: "message list"
  temperature :: "real option"

text \<open>
  The completion service answers a request with an exception or with the contents of the
  messages of its choices (a content may be \<open>None\<close>). What the program does to the
  outside is recorded as a list of events.
\<close>

type_synonym completion = "pystr option list"

datatype event = ClientCreated pystr | ChatCompletionCreate request

definition request_kwargs :: "globals \<Rightarrow> pystr \<Rightarrow> request" where
  "request_kwargs g prompt =
     (let model_name = str_strip (openai_model g);
          kwargs = \<lparr>model = model_name,
                    messages =
                      [\<lparr>role = lit ''system'',
                        content = lit ''You write clear, concise Markdown reports.''\<rparr>,
                       \<lparr>role = lit ''user'', content = prompt\<rparr>],
                    temperature = None\<rparr>
      in if str_lower model_name \<noteq> lit ''gpt-5-nano''
         then kwargs\<lparr>temperature := Some 0.4\<rparr>
         else kwargs)"

text \<open>
  The fallback text. The source file holds the three characters U+00E2, U+20AC, U+201C
  between \<open>Report\<close> and the date.
\<close>

definition fallback_report :: "date \<Rightarrow> pystr" where
  "fallback_report now =
     lit ''# Daily Research & Idea Report '' @ [226, 8364, 8220] @ lit '' '' @
     get_today_str now @ lit ''\<newline>\<newline>No articles found today.''"

definition generate_report_md ::
  "globals \<Rightarrow> date \<Rightarrow> (request \<Rightarrow> error + completion) \<Rightarrow> environ \<Rightarrow> article list
     \<Rightarrow> (error + pystr option) \<times> event list" where
  "generate_report_md g now api env articles =
     (case env (lit ''OPENAI_API_KEY'') of
        None \<Rightarrow> (Inl (RuntimeError (lit ''OPENAI_API_KEY environment variable is not set'')), [])
      | Some api_key \<Rightarrow>
          if api_key = []
          then (Inl (RuntimeError (lit ''OPENAI_API_KEY environment variable is not set'')), [])
          else if articles = []
          then (Inr (Some (fallback_report now)), [ClientCreated api_key])
          else
            (case build_llm_prompt g now articles of
               Inl e \<Rightarrow> (Inl e, [ClientCreated api_key])
             | Inr prompt \<Rightarrow>
                 (let kwargs = request_kwargs g prompt;
                      events = [ClientCreated api_key, ChatCompletionCreate kwargs]
                  in case api kwargs of
                       Inl e \<Rightarrow> (Inl e, events)
                     | Inr choices \<Rightarrow>
                         (case choices of
                            [] \<Rightarrow> (Inl IndexError, events)
                          | c # _ \<Rightarrow> (Inr c, events)))))"

section \<open>Saving the report\<close>

text \<open>
  \<open>mkdir(exist_ok=True)\<close> accepts a directory that is there and fails on a file of that
  name. \<open>write_text\<close> opens the file for writing, which empties it, and then encodes the
  text as UTF-8, which fails on a surrogate code point.
\<close>

definition mkdir_exist_ok :: "filesystem \<Rightarrow> path \<Rightarrow> error + filesystem" where
  "mkdir_exist_ok fs p =
     (case fs p of
        None \<Rightarrow> Inr (fs(p \<mapsto> Dir))
      | Some Dir \<Rightarrow> Inr fs
      | Some (File _) \<Rightarrow> Inl FileExistsError)"

definition write_text :: "filesystem \<Rightarrow> path \<Rightarrow> pystr \<Rightarrow> filesystem \<times> error option" where
  "write_text fs p text =
     (case fs p of
        Some Dir \<Rightarrow> (fs, Some IsADirectoryError)
      | _ \<Rightarrow>
          if list_ex is_surrogate text then (fs(p \<mapsto> File []), Some UnicodeEncodeError)
          else (fs(p \<mapsto> File text), None))"

definition report_path :: "date \<Rightarrow> path" where
  "report_path now = lit ''reports'' @ lit ''/'' @ lit ''report-'' @ get_today_str now @ lit ''.md''"

text \<open>
  \<open>save_report\<close> returns the file system it leaves behind and either the exception raised
  or the line printed.
\<close>

definition save_report :: "date \<Rightarrow> filesystem \<Rightarrow> pystr \<Rightarrow> filesystem \<times> (error + pystr)" where
  "save_report now fs markdown_text =
     (case mkdir_exist_ok fs (lit ''reports'') of
        Inl e \<Rightarrow> (fs, Inl e)
      | Inr fs1 \<Rightarrow>
          (let p = report_path now in
           case write_text fs1 p markdown_text of
             (fs2, Some e) \<Rightarrow> (fs2, Inl e)
           | (fs2, None) \<Rightarrow> (fs2, Inr (lit ''Wrote report to '' @ p))))"


section \<open>The specification's wording\<close>

text \<open>
  The feed-list file as the specification describes it: the trimmed lines that are not
  blank and do not start with \<open>#\<close>, in file order.
\<close>

definition usable_lines :: "pystr \<Rightarrow> pystr list" where
  "usable_lines text =
     filter (\<lambda>line. line \<noteq> [] \<and> \<not> startswith line (lit ''#'')) (map str_strip (splitlines text))"





text \<open>
  A template as the specification sees it: literal text, the placeholders \<open>$name\<close> and
  \<open>${name}\<close>, and the escape \<open>$$\<close>. \<open>template_text\<close> is the text of the file,
  \<open>rendered\<close> the same layout with every placeholder replaced by its value and every
  escape by one \<open>$\<close>. In a well-formed list the literal text has no \<open>$\<close>, the names
  are identifiers, and what follows \<open>$name\<close> does not continue the name.
\<close>

datatype segment = Text pystr | Placeholder pystr | BracedPlaceholder pystr | Dollar

fun template_text :: "segment list \<Rightarrow> pystr" where
  "template_text [] = []"
| "template_text (Text s # segs) = s @ template_text segs"
| "template_text (Placeholder n # segs) = 36 # n @ template_text segs"
| "template_text (BracedPlaceholder n # segs) = 36 # 123 # n @ 125 # template_text segs"
| "template_text (Dollar # segs) = 36 # 36 # template_text segs"

definition is_identifier :: "pystr \<Rightarrow> bool" where
  "is_identifier n \<longleftrightarrow> (case n of [] \<Rightarrow> False | c # cs \<Rightarrow> is_id_start c \<and> list_all is_id_char cs)"

fun well_formed :: "segment list \<Rightarrow> bool" where
  "well_formed [] = True"
| "well_formed (Text s # segs) = (36 \<notin> set s \<and> well_formed segs)"
| "well_formed (Placeholder n # segs) =
     (is_identifier n \<and>
      (case template_text segs of [] \<Rightarrow> True | c # _ \<Rightarrow> \<not> is_id_char c) \<and>
      well_formed segs)"
| "well_formed (BracedPlaceholder n # segs) = (is_identifier n \<and> well_formed segs)"
| "well_formed (Dollar # segs) = well_formed segs"

fun placeholder_names :: "segment list \<Rightarrow> pystr list" where
  "placeholder_names [] = []"
| "placeholder_names (Text s # segs) = placeholder_names segs"
| "placeholder_names (Placeholder n # segs) = n # placeholder_names segs"
| "placeholder_names (BracedPlaceholder n # segs) = n # placeholder_names segs"
| "placeholder_names (Dollar # segs) = placeholder_names segs"

fun rendered :: "(pystr \<Rightarrow> pystr) \<Rightarrow> segment list \<Rightarrow> pystr" where
  "rendered v [] = []"
| "rendered v (Text s # segs) = s @ rendered v segs"
| "rendered v (Placeholder n # segs) = v n @ rendered v segs"
| "rendered v (BracedPlaceholder n # segs) = v n @ rendered v segs"
| "rendered v (Dollar # segs) = 36 # rendered v segs"

text \<open>
  The article block as the specification describes it: for each article five lines with
  the 1-based index, the title, the source, the published field, the URL and the first
  500 characters of the summary, the blocks separated by an empty line.
\<close>

definition rendered_article :: "nat \<Rightarrow> article \<Rightarrow> pystr" where
  "rendered_article idx a =
     str_nat idx @ lit ''. Title: '' @ title a @ [10] @
     lit ''   Source: '' @ source a @ [10] @
     lit ''   Published: '' @ published a @ [10] @
     lit ''   URL: '' @ link a @ [10] @
     lit ''   Summary/Excerpt: '' @ take 500 (summary a) @ [10]"

fun rendered_blocks :: "nat \<Rightarrow> article list \<Rightarrow> pystr" where
  "rendered_blocks idx [] = []"
| "rendered_blocks idx [a] = rendered_article idx a"
| "rendered_blocks idx (a # b # as) =
     rendered_article idx a @ [10] @ rendered_blocks (Suc idx) (b # as)"

text \<open>
  The form \<open>YYYY-MM-DD\<close>, the dates of the calendar with a year of four digits, and
  such a date written in this form.
\<close>

definition is_digit :: "nat \<Rightarrow> bool" where
  "is_digit c \<longleftrightarrow> 48 \<le> c \<and> c \<le> 57"

definition iso_date_form :: "pystr \<Rightarrow> bool" where
  "iso_date_form s \<longleftrightarrow>
     length s = 10 \<and> list_all is_digit (take 4 s) \<and> s ! 4 = 45 \<and>
     list_all is_digit (take 2 (drop 5 s)) \<and> s ! 7 = 45 \<and> list_all is_digit (drop 8 s)"

definition iso_date :: "date \<Rightarrow> pystr" where
  "iso_date d =
     [digit (year d div 1000), digit (year d div 100 mod 10), digit (year d div 10 mod 10),
      digit (year d mod 10), 45, digit (month d div 10), digit (month d mod 10), 45,
      digit (day d div 10), digit (day d mod 10)]"

definition valid_date :: "date \<Rightarrow> bool" where
  "valid_date d \<longleftrightarrow>
     1000 \<le> year d \<and> year d \<le> 9999 \<and> 1 \<le> month d \<and> month d \<le> 12 \<and> 1 \<le> day d \<and> day d \<le> 31"

text \<open>The invariant of the dictionary of the deduplication: each article under its link.\<close>

definition keyed_by_link :: "(pystr \<times> article) list \<Rightarrow> bool" where
  "keyed_by_link kvs \<longleftrightarrow> (\<forall>kv \<in> set kvs. link (snd kv) = fst kv)"

section \<open>Concrete inputs\<close>

text \<open>Small inputs on which the theorems below are instantiated.\<close>

definition example_date :: date where
  "example_date = \<lparr>year = 2025, month = 3, day = 9\<rparr>"

definition no_environ :: environ where
  "no_environ = Map.empty"

definition key_environ :: environ where
  "key_environ = [lit ''OPENAI_API_KEY'' \<mapsto> lit ''sk-1'']"

definition example_globals :: globals where
  "example_globals =
     \<lparr>openai_model = OPENAI_MODEL, rss_feeds = [lit ''http://a/feed''],
      prompt_template = lit ''News of $today''\<rparr>"

definition example_api :: "request \<Rightarrow> error + completion" where
  "example_api r = Inr [Some (lit ''# Report'')]"

definition example_article :: article where
  "example_article =
     \<lparr>title = lit ''T'', link = lit ''http://a/1'', summary = lit ''S'',
      published = lit ''2025-03-08'', source = lit ''A''\<rparr>"

definition shouting_globals :: globals where
  "shouting_globals = example_globals\<lparr>openai_model := lit ''GPT-5-NANO''\<rparr>"

definition empty_fs :: filesystem where
  "empty_fs = Map.empty"

definition first_saved_fs :: filesystem where
  "first_saved_fs =
     empty_fs(lit ''reports'' \<mapsto> Dir, report_path example_date \<mapsto> File (lit ''one''))"

definition feeds_fs :: filesystem where
  "feeds_fs =
     [FEEDS_FILE \<mapsto> File (lit ''# feeds\<newline>http://a/feed\<newline>\<newline>  http://b/feed  \<newline>''),
      PROMPT_TEMPLATE_FILE \<mapsto> File (lit ''# only a comment\<newline>\<newline>'')]"



definition first_entry :: entry where
  "first_entry =
     \<lparr>entry_title = Some (lit '' First ''), entry_link = Some (lit ''http://a/1''),
      entry_summary = Some (lit ''one''), entry_description = None,
      entry_published = Some (lit ''2025-03-01''), entry_updated = None\<rparr>"

definition second_entry :: entry where
  "second_entry =
     \<lparr>entry_title = Some (lit ''Second''), entry_link = Some (lit ''http://a/1''),
      entry_summary = None, entry_description = Some (lit ''two''),
      entry_published = Some (lit ''2025-03-02''), entry_updated = None\<rparr>"

definition blank_entry :: entry where
  "blank_entry =
     \<lparr>entry_title = Some (lit ''  ''), entry_link = Some (lit ''http://a/3''),
      entry_summary = None, entry_description = None,
      entry_published = Some (lit ''2025-03-09''), entry_updated = None\<rparr>"

definition other_entry :: entry where
  "other_entry =
     \<lparr>entry_title = Some (lit ''Other''), entry_link = Some (lit ''http://a/4''),
      entry_summary = None, entry_description = None,
      entry_published = None, entry_updated = Some (lit ''2025-03-05'')\<rparr>"

definition first_article :: article where
  "first_article =
     \<lparr>title = lit ''First'', link = lit ''http://a/1'', summary = lit ''one'',
      published = lit ''2025-03-01'', source = lit ''A''\<rparr>"

definition second_article :: article where
  "second_article =
     \<lparr>title = lit ''Second'', link = lit ''http://a/1'', summary = lit ''two'',
      published = lit ''2025-03-02'', source = lit ''A''\<rparr>"

definition other_article :: article where
  "other_article =
     \<lparr>title = lit ''Other'', link = lit ''http://a/4'', summary = [],
      published = lit ''2025-03-05'', source = lit ''A''\<rparr>"

definition duplicate_parse :: "nat \<Rightarrow> pystr \<Rightarrow> parsed_feed" where
  "duplicate_parse i url = \<lparr>feed_title = Some (lit ''A''), entries = [first_entry, second_entry]\<rparr>"

definition mixed_parse :: "nat \<Rightarrow> pystr \<Rightarrow> parsed_feed" where
  "mixed_parse i url =
     \<lparr>feed_title = Some (lit ''A''),
      entries = [first_entry, second_entry, blank_entry, other_entry]\<rparr>"

definition layout_segments :: "segment list" where
  "layout_segments =
     [Text (lit ''Date: ''), Placeholder (lit ''today''), Text (lit ''\<newline>''),
      BracedPlaceholder (lit ''articles_block''), Text (lit ''\<newline>Cost: ''), Dollar, Text (lit ''0'')]"

definition layout_globals :: globals where
  "layout_globals = example_globals\<lparr>prompt_template := lit ''Date: $today\<newline>${articles_block}\<newline>Cost: $$0''\<rparr>"

definition unknown_globals :: globals where
  "unknown_globals = example_globals\<lparr>prompt_template := lit ''$today $author''\<rparr>"

definition unknown_segments :: "segment list" where
  "unknown_segments = [Placeholder (lit ''today''), Text (lit '' ''), Placeholder (lit ''author'')]"


definition stray_dollar_globals :: globals where
  "stray_dollar_globals =
     example_globals\<lparr>prompt_template := lit ''Cost: $5 on $today ${articles_block}''\<rparr>"


section \<open>Evaluation of the concrete inputs\<close>

lemma str_nat_2025: "str_nat 2025 = lit ''2025''"
  by (simp add: str_nat.simps digit_def lit_def)

lemma today_example: "get_today_str example_date = lit ''2025-03-09''"
  by (simp add: get_today_str_def example_date_def str_nat.simps digit_def two_digits_def lit_def)

lemma prompt_example: "build_llm_prompt example_globals example_date [example_article] = Inr (lit ''News of 2025-03-09'')"
  apply (simp add: build_llm_prompt_def example_globals_def today_example)
  apply (simp add: lit_def substitute.simps(2) match_placeholder_def is_id_start_def is_id_char_def)
  done

section \<open>The report generator and its credential\<close>

text \<open>
  Claim C10. \<open>generate_report_md\<close> looks at the credential before anything else: when
  \<open>OPENAI_API_KEY\<close> is not set, every call, whatever the article list, raises the
  \<open>RuntimeError\<close> of the missing credential and does nothing to the outside; and a call
  with the empty article list returns the fallback text exactly when the credential is
  set and not empty.
\<close>

theorem generate_report_md_checks_credential_first:
  "(env (lit ''OPENAI_API_KEY'') = None \<longrightarrow>
      generate_report_md g now api env articles =
        (Inl (RuntimeError (lit ''OPENAI_API_KEY environment variable is not set'')), [])) \<and>
   (fst (generate_report_md g now api env []) = Inr (Some (fallback_report now)) \<longleftrightarrow>
      (\<exists>api_key. env (lit ''OPENAI_API_KEY'') = Some api_key \<and> api_key \<noteq> []))"
  by (auto simp: generate_report_md_def split: option.splits)

theorem generate_report_md_checks_credential_first_witness:
  "generate_report_md example_globals example_date example_api no_environ [] =
        (Inl (RuntimeError (lit ''OPENAI_API_KEY environment variable is not set'')), []) \<and>
   fst (generate_report_md example_globals example_date example_api key_environ []) =
        Inr (Some (fallback_report example_date))"
  using generate_report_md_checks_credential_first
          [of no_environ example_globals example_date example_api "[]"]
        generate_report_md_checks_credential_first
          [of key_environ example_globals example_date example_api "[]"]
  by (simp add: no_environ_def key_environ_def lit_def)

text \<open>
  Claim C7. With a non-empty article list and \<open>OPENAI_API_KEY\<close> not set,
  \<open>generate_report_md\<close> raises the error of the missing credential (a \<open>RuntimeError\<close>, the
  configuration error of the specification), and the list of events is empty: no client
  was created and no request was sent to the completion service.
\<close>

theorem generate_report_md_missing_credential:
  "articles \<noteq> [] \<Longrightarrow> env (lit ''OPENAI_API_KEY'') = None \<Longrightarrow>
     generate_report_md g now api env articles =
       (Inl (RuntimeError (lit ''OPENAI_API_KEY environment variable is not set'')), [])"
  by (simp add: generate_report_md_def)

theorem generate_report_md_missing_credential_witness:
  "[example_article] \<noteq> [] \<and> no_environ (lit ''OPENAI_API_KEY'') = None \<and>
   generate_report_md example_globals example_date example_api no_environ [example_article] =
       (Inl (RuntimeError (lit ''OPENAI_API_KEY environment variable is not set'')), [])"
  using generate_report_md_missing_credential
          [of "[example_article]" no_environ example_globals example_date example_api]
  by (simp add: no_environ_def)

text \<open>
  Claim C1, as stated: every call with the empty article list returns the fallback text.
  It fails when the credential is not set: the call raises instead.
\<close>

theorem generate_report_md_empty_counterexample:
  "fst (generate_report_md example_globals example_date example_api no_environ []) \<noteq>
     Inr (Some (fallback_report example_date))"
  by (simp add: generate_report_md_def no_environ_def)

text \<open>
  Claim C1, amended. When \<open>OPENAI_API_KEY\<close> is set and not empty, a call with the empty
  article list returns the fixed fallback text, which holds today's UTC date and the
  notice that no articles were found, and the only event is the creation of the client:
  no request is sent to the completion service.
\<close>

theorem generate_report_md_empty_fallback:
  "env (lit ''OPENAI_API_KEY'') = Some api_key \<Longrightarrow> api_key \<noteq> [] \<Longrightarrow>
     generate_report_md g now api env [] =
       (Inr (Some (lit ''# Daily Research & Idea Report '' @ [226, 8364, 8220] @ lit '' '' @
                   get_today_str now @ lit ''\<newline>\<newline>No articles found today.'')),
        [ClientCreated api_key])"
  by (simp add: generate_report_md_def fallback_report_def)

theorem generate_report_md_empty_fallback_witness:
  "key_environ (lit ''OPENAI_API_KEY'') = Some (lit ''sk-1'') \<and> lit ''sk-1'' \<noteq> [] \<and>
     generate_report_md example_globals example_date example_api key_environ [] =
       (Inr (Some (lit ''# Daily Research & Idea Report '' @ [226, 8364, 8220] @ lit '' '' @
                   get_today_str example_date @ lit ''\<newline>\<newline>No articles found today.'')),
        [ClientCreated (lit ''sk-1'')])"
  using generate_report_md_empty_fallback
          [of key_environ "lit ''sk-1''" example_globals example_date example_api]
  by (simp add: key_environ_def lit_def)

section \<open>The request sent to the completion service\<close>

text \<open>
  Claim C8, as stated: any model name other than the default \<open>gpt-5-nano\<close> makes the
  request carry the temperature 0.4. It fails for the name \<open>GPT-5-NANO\<close>, which is not
  the default and still sends no temperature: the comparison is made on the trimmed,
  lower-cased name.
\<close>

theorem request_temperature_counterexample:
  "openai_model shouting_globals \<noteq> lit ''gpt-5-nano'' \<and>
   snd (generate_report_md shouting_globals example_date example_api key_environ [example_article]) =
     [ClientCreated (lit ''sk-1''),
      ChatCompletionCreate
        \<lparr>model = lit ''GPT-5-NANO'',
         messages = [\<lparr>role = lit ''system'', content = lit ''You write clear, concise Markdown reports.''\<rparr>,
                     \<lparr>role = lit ''user'', content = lit ''News of 2025-03-09''\<rparr>],
         temperature = None\<rparr>]"
proof -
  have p: "build_llm_prompt shouting_globals example_date [example_article] = Inr (lit ''News of 2025-03-09'')"
    using prompt_example by (simp add: build_llm_prompt_def shouting_globals_def)
  have m: "str_strip (lit ''GPT-5-NANO'') = lit ''GPT-5-NANO''"
    by (simp add: str_strip_def lit_def isspace_def)
  have l: "str_lower (lit ''GPT-5-NANO'') = lit ''gpt-5-nano''"
    by (simp add: str_lower_def lit_def)
  have n: "lit ''GPT-5-NANO'' \<noteq> lit ''gpt-5-nano''"
    by (simp add: lit_def)
  have r: "request_kwargs shouting_globals (lit ''News of 2025-03-09'') =
        \<lparr>model = lit ''GPT-5-NANO'',
         messages = [\<lparr>role = lit ''system'', content = lit ''You write clear, concise Markdown reports.''\<rparr>,
                     \<lparr>role = lit ''user'', content = lit ''News of 2025-03-09''\<rparr>],
         temperature = None\<rparr>"
    by (simp add: request_kwargs_def shouting_globals_def m l)
  have k: "lit ''sk-1'' \<noteq> []"
    by (simp add: lit_def)
  have "snd (generate_report_md shouting_globals example_date example_api key_environ [example_article]) =
     [ClientCreated (lit ''sk-1''),
      ChatCompletionCreate (request_kwargs shouting_globals (lit ''News of 2025-03-09''))]"
    by (simp add: generate_report_md_def key_environ_def p k example_api_def)
  moreover have "openai_model shouting_globals \<noteq> lit ''gpt-5-nano''"
    using n by (simp add: shouting_globals_def)
  ultimately show ?thesis
    by (simp add: r)
qed

text \<open>
  Claim C8, amended. For a non-empty article list (with the credential set and a prompt
  that renders), the request has exactly two messages, the fixed system instruction and
  the rendered user prompt, and names the trimmed configured model; it carries no
  temperature exactly when the configured name, trimmed and lower-cased, equals
  \<open>gpt-5-nano\<close>, which the default name does, and the temperature 0.4 otherwise. One
  comparison decides.
\<close>

theorem request_kwargs_shape:
  assumes "env (lit ''OPENAI_API_KEY'') = Some api_key" and "api_key \<noteq> []"
    and "articles \<noteq> []" and "build_llm_prompt g now articles = Inr prompt"
  shows "snd (generate_report_md g now api env articles) =
           [ClientCreated api_key,
            ChatCompletionCreate
              \<lparr>model = str_strip (openai_model g),
               messages = [\<lparr>role = lit ''system'',
                            content = lit ''You write clear, concise Markdown reports.''\<rparr>,
                           \<lparr>role = lit ''user'', content = prompt\<rparr>],
               temperature =
                 (if str_lower (str_strip (openai_model g)) = lit ''gpt-5-nano''
                  then None else Some 0.4)\<rparr>] \<and>
         (openai_model g = OPENAI_MODEL \<longrightarrow>
            str_lower (str_strip (openai_model g)) = lit ''gpt-5-nano'')"
proof -
  have d: "str_lower (str_strip OPENAI_MODEL) = lit ''gpt-5-nano''"
    by (simp add: OPENAI_MODEL_def str_strip_def str_lower_def lit_def isspace_def)
  have "snd (generate_report_md g now api env articles) =
          [ClientCreated api_key, ChatCompletionCreate (request_kwargs g prompt)]"
    using assms by (simp add: generate_report_md_def Let_def split: sum.splits list.splits)
  then show ?thesis
    using d by (simp add: request_kwargs_def Let_def)
qed


theorem request_kwargs_shape_witness:
  "key_environ (lit ''OPENAI_API_KEY'') = Some (lit ''sk-1'') \<and> lit ''sk-1'' \<noteq> [] \<and>
   [example_article] \<noteq> [] \<and>
   build_llm_prompt example_globals example_date [example_article] = Inr (lit ''News of 2025-03-09'') \<and>
   snd (generate_report_md example_globals example_date example_api key_environ [example_article]) =
     [ClientCreated (lit ''sk-1''),
      ChatCompletionCreate
        \<lparr>model = lit ''gpt-5-nano'',
         messages = [\<lparr>role = lit ''system'', content = lit ''You write clear, concise Markdown reports.''\<rparr>,
                     \<lparr>role = lit ''user'', content = lit ''News of 2025-03-09''\<rparr>],
         temperature = None\<rparr>]"
proof -
  have h1: "key_environ (lit ''OPENAI_API_KEY'') = Some (lit ''sk-1'')"
    by (simp add: key_environ_def)
  have h2: "lit ''sk-1'' \<noteq> []"
    by (simp add: lit_def)
  have h3: "[example_article] \<noteq> []"
    by simp
  have m: "str_strip (openai_model example_globals) = lit ''gpt-5-nano''"
    by (simp add: example_globals_def OPENAI_MODEL_def str_strip_def lit_def isspace_def)
  have l: "str_lower (lit ''gpt-5-nano'') = lit ''gpt-5-nano''"
    by (simp add: str_lower_def lit_def)
  show ?thesis
    using request_kwargs_shape [where env = key_environ and api_key = "lit ''sk-1''"
        and articles = "[example_article]" and g = example_globals and now = example_date
        and prompt = "lit ''News of 2025-03-09''" and api = example_api] h1 h2 prompt_example
    by (simp add: m l)
qed

section \<open>Writing the report\<close>

lemma report_path_not_reports: "report_path now \<noteq> lit ''reports''"
  by (simp add: report_path_def lit_def)

text \<open>
  Claim C9. The path written depends on the UTC date only: it is
  \<open>reports/report-<date>.md\<close>. After a first report was written on a date, the file
  holds the first text; writing a second text on the same date goes to the same path
  (the same line is printed), replaces the file and leaves every other path as it was,
  so that the file then holds the second text only. (A text that cannot be encoded
  leaves the file empty and raises.)
\<close>

theorem save_report_overwrites:
  assumes "save_report now fs text1 = (fs1, Inr out1)"
  shows "report_path now = lit ''reports/report-'' @ get_today_str now @ lit ''.md'' \<and>
         fs1 (report_path now) = Some (File text1) \<and>
         save_report now fs1 text2 =
           (if list_ex is_surrogate text2
            then (fs1(report_path now \<mapsto> File []), Inl UnicodeEncodeError)
            else (fs1(report_path now \<mapsto> File text2), Inr out1))"
proof -
  have path: "report_path now = lit ''reports/report-'' @ get_today_str now @ lit ''.md''"
    by (simp add: report_path_def lit_def)
  obtain fs0 where mk: "mkdir_exist_ok fs (lit ''reports'') = Inr fs0"
    and wr: "write_text fs0 (report_path now) text1 = (fs1, None)"
    and out: "out1 = lit ''Wrote report to '' @ report_path now"
    using assms
    by (auto simp: save_report_def Let_def split: sum.splits prod.splits option.splits)
  have dir0: "fs0 (lit ''reports'') = Some Dir"
    using mk by (auto simp: mkdir_exist_ok_def split: option.splits node.splits)
  have fs1: "fs1 = fs0(report_path now \<mapsto> File text1)"
    using wr by (auto simp: write_text_def split: option.splits node.splits if_splits)
  have dir1: "fs1 (lit ''reports'') = Some Dir"
    using dir0 report_path_not_reports [of now] by (simp add: fs1)
  have mk1: "mkdir_exist_ok fs1 (lit ''reports'') = Inr fs1"
    using dir1 by (simp add: mkdir_exist_ok_def)
  have file1: "fs1 (report_path now) = Some (File text1)"
    by (simp add: fs1)
  have "save_report now fs1 text2 =
           (if list_ex is_surrogate text2
            then (fs1(report_path now \<mapsto> File []), Inl UnicodeEncodeError)
            else (fs1(report_path now \<mapsto> File text2), Inr out1))"
    using file1 by (simp add: save_report_def mk1 write_text_def out Let_def)
  with path file1 show ?thesis by blast
qed

theorem save_report_overwrites_witness:
  "save_report example_date empty_fs (lit ''one'') =
     (first_saved_fs, Inr (lit ''Wrote report to reports/report-2025-03-09.md'')) \<and>
   save_report example_date first_saved_fs (lit ''two'') =
     (first_saved_fs(report_path example_date \<mapsto> File (lit ''two'')),
      Inr (lit ''Wrote report to reports/report-2025-03-09.md'')) \<and>
   (first_saved_fs(report_path example_date \<mapsto> File (lit ''two''))) (lit ''reports/report-2025-03-09.md'') =
      Some (File (lit ''two''))"
proof -
  have p: "report_path example_date = lit ''reports/report-2025-03-09.md''"
    by (simp add: report_path_def today_example) (simp add: lit_def)
  have h: "save_report example_date empty_fs (lit ''one'') =
     (first_saved_fs, Inr (lit ''Wrote report to reports/report-2025-03-09.md''))"
    by (simp add: save_report_def mkdir_exist_ok_def empty_fs_def write_text_def first_saved_fs_def p
          Let_def)
       (simp add: lit_def is_surrogate_def)
  have s: "\<not> list_ex is_surrogate (lit ''two'')"
    by (simp add: lit_def is_surrogate_def)
  show ?thesis
    using save_report_overwrites [OF h, of "lit ''two''"] h s
    by (simp add: p)
qed

section \<open>Deduplication, order and size of the fetched articles\<close>

subsection \<open>The dictionary\<close>

lemma map_of_dict_set: "map_of (dict_set k v kvs) = (map_of kvs)(k \<mapsto> v)"
  by (induction kvs) (auto simp: fun_eq_iff)

lemma keys_dict_set:
  "map fst (dict_set k v kvs) = (if k \<in> fst ` set kvs then map fst kvs else map fst kvs @ [k])"
  by (induction kvs) (force split: if_splits)+

lemma distinct_dict_set: "distinct (map fst kvs) \<Longrightarrow> distinct (map fst (dict_set k v kvs))"
  by (simp add: keys_dict_set)

lemma set_dict_set: "set (dict_set k v kvs) \<subseteq> insert (k, v) (set kvs)"
  by (induction kvs) (auto split: if_splits)

lemma keyed_dict_set: "keyed_by_link kvs \<Longrightarrow> keyed_by_link (dict_set (link a) a kvs)"
  using set_dict_set [of "link a" a kvs] by (auto simp: keyed_by_link_def)

lemma dedup_loop_distinct:
  "distinct (map fst unique) \<Longrightarrow> distinct (map fst (dedup_loop unique as))"
  by (induction as arbitrary: unique) (simp_all add: distinct_dict_set)

lemma dedup_loop_keyed: "keyed_by_link unique \<Longrightarrow> keyed_by_link (dedup_loop unique as)"
  by (induction as arbitrary: unique) (simp_all add: keyed_dict_set)

lemma dedup_loop_lookup:
  "map_of (dedup_loop unique as) k =
     (if \<exists>b \<in> set as. link b = k then Some (last (filter (\<lambda>b. link b = k) as))
      else map_of unique k)"
proof (induction as arbitrary: unique)
  case Nil
  then show ?case by simp
next
  case (Cons a as)
  show ?case
  proof (cases "\<exists>b \<in> set as. link b = k")
    case True
    then have "filter (\<lambda>b. link b = k) as \<noteq> []"
      by (simp add: filter_empty_conv)
    with True show ?thesis
      by (simp add: Cons.IH)
  next
    case False
    then have "filter (\<lambda>b. link b = k) as = []"
      by (simp add: filter_empty_conv)
    with False show ?thesis
      by (simp add: Cons.IH map_of_dict_set)
  qed
qed

lemma keyed_map_link: "keyed_by_link kvs \<Longrightarrow> map link (map snd kvs) = map fst kvs"
  by (induction kvs) (auto simp: keyed_by_link_def)

lemma deduplicate_distinct: "distinct (map link (deduplicate articles))"
proof -
  have "keyed_by_link (dedup_loop [] articles)"
    by (rule dedup_loop_keyed) (simp add: keyed_by_link_def)
  then have "map link (deduplicate articles) = map fst (dedup_loop [] articles)"
    unfolding deduplicate_def dict_values_def by (rule keyed_map_link)
  then show ?thesis
    by (simp add: dedup_loop_distinct)
qed

lemma deduplicate_member:
  "a \<in> set (deduplicate articles) \<longleftrightarrow>
     a \<in> set articles \<and> last (filter (\<lambda>b. link b = link a) articles) = a"
proof -
  let ?u = "dedup_loop [] articles"
  have keyed: "keyed_by_link ?u"
    by (rule dedup_loop_keyed) (simp add: keyed_by_link_def)
  have dist: "distinct (map fst ?u)"
    by (rule dedup_loop_distinct) simp
  have "a \<in> set (deduplicate articles) \<longleftrightarrow> (link a, a) \<in> set ?u"
    using keyed by (force simp: deduplicate_def dict_values_def keyed_by_link_def)
  also have "\<dots> \<longleftrightarrow> map_of ?u (link a) = Some a"
    using dist by simp
  also have "\<dots> \<longleftrightarrow> (\<exists>b \<in> set articles. link b = link a) \<and>
      last (filter (\<lambda>b. link b = link a) articles) = a"
    by (simp add: dedup_loop_lookup)
  also have "\<dots> \<longleftrightarrow> a \<in> set articles \<and> last (filter (\<lambda>b. link b = link a) articles) = a"
  proof
    assume h: "(\<exists>b \<in> set articles. link b = link a) \<and>
      last (filter (\<lambda>b. link b = link a) articles) = a"
    then have ne: "filter (\<lambda>b. link b = link a) articles \<noteq> []"
      by (simp add: filter_empty_conv)
    have "last (filter (\<lambda>b. link b = link a) articles) \<in> set (filter (\<lambda>b. link b = link a) articles)"
      using ne by (rule last_in_set)
    with h show "a \<in> set articles \<and> last (filter (\<lambda>b. link b = link a) articles) = a"
      by simp
  next
    assume "a \<in> set articles \<and> last (filter (\<lambda>b. link b = link a) articles) = a"
    then show "(\<exists>b \<in> set articles. link b = link a) \<and>
      last (filter (\<lambda>b. link b = link a) articles) = a"
      by blast
  qed
  finally show ?thesis .
qed

lemma deduplicate_links: "link ` set (deduplicate articles) = link ` set articles"
proof
  show "link ` set (deduplicate articles) \<subseteq> link ` set articles"
    by (auto simp: deduplicate_member)
next
  show "link ` set articles \<subseteq> link ` set (deduplicate articles)"
  proof
    fix l
    assume "l \<in> link ` set articles"
    then have ne: "filter (\<lambda>b. link b = l) articles \<noteq> []"
      by (auto simp: filter_empty_conv)
    let ?a = "last (filter (\<lambda>b. link b = l) articles)"
    have mem: "?a \<in> set (filter (\<lambda>b. link b = l) articles)"
      using ne by (rule last_in_set)
    then have l: "link ?a = l" and "?a \<in> set articles"
      by simp_all
    then have "?a \<in> set (deduplicate articles)"
      by (simp add: deduplicate_member)
    with l show "l \<in> link ` set (deduplicate articles)"
      by force
  qed
qed

subsection \<open>Sorting\<close>

lemma distinct_map_insort_key:
  "distinct (map g (insort_key f x xs)) \<longleftrightarrow> g x \<notin> g ` set xs \<and> distinct (map g xs)"
  by (induction xs) (auto simp: set_insort_key)

lemma distinct_map_sort_key: "distinct (map g (sort_key f xs)) \<longleftrightarrow> distinct (map g xs)"
  by (induction xs) (simp_all add: distinct_map_insort_key)

lemma sort_reverse_set: "set (sort_reverse f xs) = set xs"
  by (simp add: sort_reverse_def)

lemma sort_reverse_distinct: "distinct (map g (sort_reverse f xs)) \<longleftrightarrow> distinct (map g xs)"
  by (simp add: sort_reverse_def rev_map [symmetric] distinct_map_sort_key)

lemma sort_reverse_sorted: "sorted_wrt (\<lambda>x y. y \<le> x) (map f (sort_reverse f xs))"
proof -
  have "sorted (map f (sort_key f (rev xs)))"
    by (rule sorted_sort_key)
  then have "sorted_wrt (\<lambda>x y. y \<le> x) (rev (map f (sort_key f (rev xs))))"
    by (simp add: sorted_wrt_rev)
  then show ?thesis
    by (simp add: sort_reverse_def rev_map)
qed


subsection \<open>The articles fetched\<close>

lemma extract_entry_Some:
  "extract_entry feed_url parsed e = Some a \<Longrightarrow>
     title a = str_strip (getattr_str (entry_title e)) \<and>
     link a = str_strip (getattr_str (entry_link e)) \<and> title a \<noteq> [] \<and> link a \<noteq> []"
  by (auto simp: extract_entry_def Let_def split: if_splits)

lemma fetch_entries_member:
  "a \<in> set (fetch_entries articles feed_url parsed es) \<longleftrightarrow>
     a \<in> set articles \<or> (\<exists>e \<in> set es. extract_entry feed_url parsed e = Some a)"
  by (induction es arbitrary: articles) (auto split: option.splits)

lemma fetch_feeds_member:
  "a \<in> set (fetch_feeds parse i articles urls) \<Longrightarrow>
     a \<in> set articles \<or>
     (\<exists>j < length urls. \<exists>e \<in> set (entries (parse (i + j) (urls ! j))).
        extract_entry (urls ! j) (parse (i + j) (urls ! j)) e = Some a)"
proof (induction urls arbitrary: i articles)
  case Nil
  then show ?case by simp
next
  case (Cons feed_url urls)
  from Cons.prems
  have "a \<in> set (fetch_entries articles feed_url (parse i feed_url) (entries (parse i feed_url))) \<or>
     (\<exists>j < length urls. \<exists>e \<in> set (entries (parse (Suc i + j) (urls ! j))).
        extract_entry (urls ! j) (parse (Suc i + j) (urls ! j)) e = Some a)"
    using Cons.IH [of "Suc i"] by simp
  then consider
      (old) "a \<in> set articles"
    | (here) "\<exists>e \<in> set (entries (parse i feed_url)). extract_entry feed_url (parse i feed_url) e = Some a"
    | (later) j where "j < length urls"
        "\<exists>e \<in> set (entries (parse (Suc i + j) (urls ! j))).
            extract_entry (urls ! j) (parse (Suc i + j) (urls ! j)) e = Some a"
    by (auto simp: fetch_entries_member)
  then show ?case
  proof cases
    case old
    then show ?thesis by simp
  next
    case here
    then have "0 < length (feed_url # urls) \<and>
        (\<exists>e \<in> set (entries (parse (i + 0) ((feed_url # urls) ! 0))).
           extract_entry ((feed_url # urls) ! 0) (parse (i + 0) ((feed_url # urls) ! 0)) e = Some a)"
      by simp
    then show ?thesis by blast
  next
    case later
    then have "Suc j < length (feed_url # urls) \<and>
        (\<exists>e \<in> set (entries (parse (i + Suc j) ((feed_url # urls) ! Suc j))).
           extract_entry ((feed_url # urls) ! Suc j) (parse (i + Suc j) ((feed_url # urls) ! Suc j)) e = Some a)"
      by simp
    then show ?thesis by blast
  qed
qed

lemma fetch_articles_subset:
  "set (fetch_articles g parse) \<subseteq> set (deduplicate (fetch_feeds parse 0 [] (rss_feeds g)))"
proof -
  have "set (fetch_articles g parse) \<subseteq>
      set (sort_reverse sort_key_fn (deduplicate (fetch_feeds parse 0 [] (rss_feeds g))))"
    unfolding fetch_articles_def by (rule set_take_subset)
  then show ?thesis
    by (simp add: sort_reverse_set)
qed

lemma extract_first:
  "extract_entry u \<lparr>feed_title = Some (lit ''A''), entries = es\<rparr> first_entry = Some first_article"
  by (simp add: extract_entry_def first_entry_def first_article_def getattr_str_def str_or_def
      str_strip_def isspace_def lit_def)

lemma extract_second:
  "extract_entry u \<lparr>feed_title = Some (lit ''A''), entries = es\<rparr> second_entry = Some second_article"
  by (simp add: extract_entry_def second_entry_def second_article_def getattr_str_def str_or_def
      str_strip_def isspace_def lit_def)

lemma extract_blank:
  "extract_entry u \<lparr>feed_title = Some (lit ''A''), entries = es\<rparr> blank_entry = None"
  by (simp add: extract_entry_def blank_entry_def getattr_str_def str_or_def
      str_strip_def isspace_def lit_def)

lemma extract_other:
  "extract_entry u \<lparr>feed_title = Some (lit ''A''), entries = es\<rparr> other_entry = Some other_article"
  by (simp add: extract_entry_def other_entry_def other_article_def getattr_str_def str_or_def
      str_strip_def isspace_def lit_def)

lemma example_links:
  "link first_article = lit ''http://a/1''" "link second_article = lit ''http://a/1''"
  "link other_article = lit ''http://a/4''" "lit ''http://a/4'' \<noteq> lit ''http://a/1''"
  "lit ''http://a/1'' \<noteq> lit ''http://a/4''"
  "first_article \<noteq> second_article" "second_article \<noteq> first_article"
  by (simp_all add: first_article_def second_article_def other_article_def lit_def)

lemma example_published:
  "published second_article \<le> published other_article"
  "\<not> published other_article \<le> published second_article"
  by (simp_all add: second_article_def other_article_def lit_def)

lemma fetch_duplicate:
  "fetch_feeds duplicate_parse 0 [] (rss_feeds example_globals) = [first_article, second_article]"
  by (simp add: example_globals_def duplicate_parse_def extract_first extract_second)

lemma fetch_mixed:
  "fetch_feeds mixed_parse 0 [] (rss_feeds example_globals) =
     [first_article, second_article, other_article]"
  by (simp add: example_globals_def mixed_parse_def extract_first extract_second extract_blank
      extract_other)

lemma fetch_articles_duplicate: "fetch_articles example_globals duplicate_parse = [second_article]"
  by (simp add: fetch_articles_def fetch_duplicate deduplicate_def dict_values_def example_links
      sort_reverse_def MAX_ARTICLES_def)

lemma fetch_articles_mixed:
  "fetch_articles example_globals mixed_parse = [other_article, second_article]"
  by (simp add: fetch_articles_def fetch_mixed deduplicate_def dict_values_def example_links
      sort_reverse_def MAX_ARTICLES_def sort_key_fn_def example_published)

text \<open>
  Claim C3. The deduplication keeps an article exactly when it is the last one, in fetch
  order, among the articles with its link; it keeps one article for each link that
  occurs. So every article that \<open>fetch_articles\<close> returns is the last one fetched with
  its link; a feed with two entries of the same link and different titles yields the
  later one only.
\<close>

theorem deduplicate_last_wins:
  "(a \<in> set (deduplicate articles) \<longleftrightarrow>
      a \<in> set articles \<and> last (filter (\<lambda>b. link b = link a) articles) = a) \<and>
   distinct (map link (deduplicate articles)) \<and>
   link ` set (deduplicate articles) = link ` set articles \<and>
   (a \<in> set (fetch_articles g parse) \<longrightarrow>
      last (filter (\<lambda>b. link b = link a) (fetch_feeds parse 0 [] (rss_feeds g))) = a)"
proof -
  have "last (filter (\<lambda>b. link b = link a) (fetch_feeds parse 0 [] (rss_feeds g))) = a"
    if "a \<in> set (fetch_articles g parse)"
  proof -
    from that have "a \<in> set (deduplicate (fetch_feeds parse 0 [] (rss_feeds g)))"
      using fetch_articles_subset by blast
    then show ?thesis
      by (simp add: deduplicate_member)
  qed
  then show ?thesis
    using deduplicate_member [of a articles] deduplicate_distinct [of articles]
      deduplicate_links [of articles]
    by blast
qed

theorem deduplicate_last_wins_witness:
  "fetch_feeds duplicate_parse 0 [] (rss_feeds example_globals) = [first_article, second_article] \<and>
   link first_article = link second_article \<and> title first_article \<noteq> title second_article \<and>
   fetch_articles example_globals duplicate_parse = [second_article] \<and>
   second_article \<in> set (deduplicate [first_article, second_article]) \<and>
   first_article \<notin> set (deduplicate [first_article, second_article])"
proof -
  have t: "title first_article \<noteq> title second_article"
    by (simp add: first_article_def second_article_def lit_def)
  show ?thesis
    using deduplicate_last_wins [of second_article "[first_article, second_article]"
        example_globals duplicate_parse]
      deduplicate_last_wins [of first_article "[first_article, second_article]"
        example_globals duplicate_parse]
      t
    by (simp add: fetch_duplicate fetch_articles_duplicate example_links)
qed

text \<open>
  Claim C2. Whatever the feeds answer, the list that \<open>fetch_articles\<close> returns has
  pairwise distinct links, at most 15 elements, and published fields in descending
  order of plain string comparison; each of its articles has a non-empty title and link
  and was extracted from an entry of a configured feed whose trimmed title and link they
  are, so that no entry with an empty trimmed title or link is in it.
\<close>

theorem fetch_articles_invariants:
  "distinct (map link (fetch_articles g parse)) \<and>
   length (fetch_articles g parse) \<le> 15 \<and>
   sorted_wrt (\<lambda>x y. y \<le> x) (map published (fetch_articles g parse)) \<and>
   (\<forall>a \<in> set (fetch_articles g parse).
      title a \<noteq> [] \<and> link a \<noteq> [] \<and>
      (\<exists>j < length (rss_feeds g). \<exists>e \<in> set (entries (parse j (rss_feeds g ! j))).
         extract_entry (rss_feeds g ! j) (parse j (rss_feeds g ! j)) e = Some a \<and>
         title a = str_strip (getattr_str (entry_title e)) \<and>
         link a = str_strip (getattr_str (entry_link e))))"
proof -
  let ?fetched = "fetch_feeds parse 0 [] (rss_feeds g)"
  let ?sorted = "sort_reverse sort_key_fn (deduplicate ?fetched)"
  have "distinct (map link ?sorted)"
    by (simp add: sort_reverse_distinct deduplicate_distinct)
  then have "distinct (take MAX_ARTICLES (map link ?sorted))"
    by (rule distinct_take)
  then have d: "distinct (map link (fetch_articles g parse))"
    by (simp add: fetch_articles_def take_map)
  have l: "length (fetch_articles g parse) \<le> 15"
    by (simp add: fetch_articles_def MAX_ARTICLES_def)
  have "sorted_wrt (\<lambda>x y. y \<le> x) (map published ?sorted)"
    using sort_reverse_sorted [of sort_key_fn "deduplicate ?fetched"]
    by (simp add: sort_key_fn_def [abs_def])
  then have "sorted_wrt (\<lambda>x y. y \<le> x) (take MAX_ARTICLES (map published ?sorted))"
    by (rule sorted_wrt_take)
  then have s: "sorted_wrt (\<lambda>x y. y \<le> x) (map published (fetch_articles g parse))"
    by (simp add: fetch_articles_def take_map)
  have p: "title a \<noteq> [] \<and> link a \<noteq> [] \<and>
      (\<exists>j < length (rss_feeds g). \<exists>e \<in> set (entries (parse j (rss_feeds g ! j))).
         extract_entry (rss_feeds g ! j) (parse j (rss_feeds g ! j)) e = Some a \<and>
         title a = str_strip (getattr_str (entry_title e)) \<and>
         link a = str_strip (getattr_str (entry_link e)))"
    if "a \<in> set (fetch_articles g parse)" for a
  proof -
    from that have "a \<in> set (deduplicate ?fetched)"
      using fetch_articles_subset by blast
    then have "a \<in> set ?fetched"
      by (simp add: deduplicate_member)
    then obtain j e where j: "j < length (rss_feeds g)"
      and e: "e \<in> set (entries (parse j (rss_feeds g ! j)))"
      and x: "extract_entry (rss_feeds g ! j) (parse j (rss_feeds g ! j)) e = Some a"
      using fetch_feeds_member [of a parse 0 "[]" "rss_feeds g"] by auto
    from extract_entry_Some [OF x] j e x show ?thesis
      by blast
  qed
  from d l s p show ?thesis
    by blast
qed


theorem fetch_articles_invariants_witness:
  "fetch_articles example_globals mixed_parse = [other_article, second_article] \<and>
   distinct (map link [other_article, second_article]) \<and>
   length [other_article, second_article] \<le> 15 \<and>
   sorted_wrt (\<lambda>x y. y \<le> x) (map published [other_article, second_article]) \<and>
   title other_article \<noteq> [] \<and> link other_article \<noteq> [] \<and>
   title second_article \<noteq> [] \<and> link second_article \<noteq> []"
  using fetch_articles_invariants [of example_globals mixed_parse]
  by (simp add: fetch_articles_mixed)

section \<open>The configuration loaders\<close>

lemma splitlines_from_Cons:
  "splitlines_from cur (c # cs) =
     (if c = 13 \<and> (\<exists>cs'. cs = 10 # cs') then rev cur # splitlines_from [] (tl cs)
      else if is_linebreak c then rev cur # splitlines_from [] cs
      else splitlines_from (c # cur) cs)"
proof (cases cs)
  case Nil
  then show ?thesis by simp
next
  case (Cons d ds)
  then show ?thesis by simp
qed

lemma linebreak_10_13: "is_linebreak 10" "is_linebreak 13"
  by (simp_all add: is_linebreak_def)

lemma splitlines_from_universal_newlines:
  "splitlines_from cur (universal_newlines s) = splitlines_from cur s"
proof (induction s arbitrary: cur rule: universal_newlines.induct)
  case 1
  then show ?case by simp
next
  case (2 c)
  then show ?case by (simp add: linebreak_10_13)
next
  case (3 c d cs)
  show ?case
  proof (cases "c = 13")
    case True
    show ?thesis
    proof (cases "d = 10")
      case d: True
      have "splitlines_from cur (universal_newlines (c # d # cs)) =
          rev cur # splitlines_from [] (universal_newlines cs)"
        using True d by (simp add: splitlines_from_Cons linebreak_10_13)
      also have "\<dots> = rev cur # splitlines_from [] cs"
        using True d by (simp add: "3.IH"(1))
      finally show ?thesis
        using True d by simp
    next
      case d: False
      have "splitlines_from cur (universal_newlines (c # d # cs)) =
          rev cur # splitlines_from [] (universal_newlines (d # cs))"
        using True d by (simp add: splitlines_from_Cons linebreak_10_13)
      also have "\<dots> = rev cur # splitlines_from [] (d # cs)"
        using True d by (simp add: "3.IH"(2))
      finally show ?thesis
        using True d by (simp add: linebreak_10_13)
    qed
  next
    case False
    have u: "universal_newlines (c # d # cs) = c # universal_newlines (d # cs)"
      using False by simp
    have "splitlines_from cur (c # universal_newlines (d # cs)) =
        (if is_linebreak c then rev cur # splitlines_from [] (universal_newlines (d # cs))
         else splitlines_from (c # cur) (universal_newlines (d # cs)))"
      using False by (simp only: splitlines_from_Cons) simp
    also have "\<dots> = (if is_linebreak c then rev cur # splitlines_from [] (d # cs)
         else splitlines_from (c # cur) (d # cs))"
      using False by (simp add: "3.IH"(3))
    also have "\<dots> = splitlines_from cur (c # d # cs)"
      using False by simp
    finally show ?thesis
      by (simp only: u)
  qed
qed

lemma splitlines_universal_newlines: "splitlines (universal_newlines s) = splitlines s"
  by (simp add: splitlines_def splitlines_from_universal_newlines)

lemma load_rss_feeds_loop_filter:
  "load_rss_feeds_loop feeds ls =
     feeds @ filter (\<lambda>line. line \<noteq> [] \<and> \<not> startswith line (lit ''#'')) (map str_strip ls)"
  by (induction ls arbitrary: feeds) (simp_all add: Let_def)

text \<open>
  Claim C4. When the feed-list file is absent, \<open>load_rss_feeds\<close> raises the
  \<open>FileNotFoundError\<close> of the missing file. When the file is there, with the trimmed
  lines that are neither blank nor comments counted, zero such lines raise the
  \<open>ValueError\<close> of the empty list, and \<open>N > 0\<close> such lines are returned, exactly these
  and in file order. (Both exceptions are configuration errors in the specification.)
\<close>

theorem load_rss_feeds_usable_lines:
  "(fs p = None \<longrightarrow>
      load_rss_feeds fs p = Inl (FileNotFoundError (lit ''RSS feeds file not found: '' @ p))) \<and>
   (fs p = Some (File text) \<longrightarrow>
      load_rss_feeds fs p =
        (if usable_lines text = [] then Inl (ValueError (lit ''No feeds defined in '' @ p))
         else Inr (usable_lines text)))"
  by (simp add: load_rss_feeds_def read_text_def load_rss_feeds_loop_filter usable_lines_def Let_def
      splitlines_universal_newlines)

lemma usable_lines_feeds:
  "usable_lines (lit ''# feeds\<newline>http://a/feed\<newline>\<newline>  http://b/feed  \<newline>'') =
     [lit ''http://a/feed'', lit ''http://b/feed'']"
  by (simp add: usable_lines_def lit_def splitlines_def isspace_def is_linebreak_def str_strip_def startswith_def)

lemma usable_lines_comment:
  "usable_lines (lit ''# only a comment\<newline>\<newline>'') = []"
  by (simp add: usable_lines_def lit_def splitlines_def isspace_def is_linebreak_def str_strip_def startswith_def)

theorem load_rss_feeds_usable_lines_witness:
  "load_rss_feeds feeds_fs FEEDS_FILE = Inr [lit ''http://a/feed'', lit ''http://b/feed''] \<and>
   load_rss_feeds feeds_fs PROMPT_TEMPLATE_FILE =
     Inl (ValueError (lit ''No feeds defined in prompt_template.md'')) \<and>
   load_rss_feeds feeds_fs ENV_FILE =
     Inl (FileNotFoundError (lit ''RSS feeds file not found: .env.local''))"
proof -
  have a: "feeds_fs FEEDS_FILE = Some (File (lit ''# feeds\<newline>http://a/feed\<newline>\<newline>  http://b/feed  \<newline>''))"
    by (simp add: feeds_fs_def FEEDS_FILE_def PROMPT_TEMPLATE_FILE_def lit_def)
  have b: "feeds_fs PROMPT_TEMPLATE_FILE = Some (File (lit ''# only a comment\<newline>\<newline>''))"
    by (simp add: feeds_fs_def)
  have c: "feeds_fs ENV_FILE = None"
    by (simp add: feeds_fs_def FEEDS_FILE_def PROMPT_TEMPLATE_FILE_def ENV_FILE_def lit_def)
  have n: "[lit ''http://a/feed'', lit ''http://b/feed''] \<noteq> []"
    by simp
  show ?thesis
    using load_rss_feeds_usable_lines [of feeds_fs FEEDS_FILE "lit ''# feeds\<newline>http://a/feed\<newline>\<newline>  http://b/feed  \<newline>''"]
      load_rss_feeds_usable_lines [of feeds_fs PROMPT_TEMPLATE_FILE "lit ''# only a comment\<newline>\<newline>''"]
      load_rss_feeds_usable_lines [of feeds_fs ENV_FILE "[]"]
      a b c
    by (simp add: usable_lines_feeds usable_lines_comment)
       (simp add: PROMPT_TEMPLATE_FILE_def ENV_FILE_def lit_def)
qed




















section \<open>Substitution into the template\<close>

lemma build_lines_step:
  "build_lines idx lines (a # as) = build_lines (Suc idx) (lines @ [rendered_article idx a]) as"
  by (simp add: rendered_article_def lit_def)

lemma build_lines_append:
  "build_lines idx lines as = lines @ build_lines idx [] as"
proof (induction as arbitrary: idx lines)
  case Nil
  show ?case by simp
next
  case (Cons a as)
  have "build_lines idx lines (a # as) =
      (lines @ [rendered_article idx a]) @ build_lines (Suc idx) [] as"
    unfolding build_lines_step by (rule Cons.IH)
  moreover have "build_lines idx [] (a # as) =
      ([] @ [rendered_article idx a]) @ build_lines (Suc idx) [] as"
    unfolding build_lines_step by (rule Cons.IH)
  ultimately show ?case by simp
qed

lemma build_lines_Cons:
  "build_lines idx [] (a # as) = rendered_article idx a # build_lines (Suc idx) [] as"
  unfolding build_lines_step by (subst build_lines_append) simp

lemma str_join_Cons:
  "str_join sep (x # xs) = (if xs = [] then x else x @ sep @ str_join sep xs)"
  by (cases xs) simp_all

lemma build_lines_empty: "build_lines idx [] as = [] \<longleftrightarrow> as = []"
  by (cases as) (simp_all add: build_lines_Cons del: build_lines.simps(2))

lemma str_join_build_lines:
  "str_join [10] (build_lines idx [] as) = rendered_blocks idx as"
proof (induction idx as rule: rendered_blocks.induct)
  case (1 idx)
  show ?case by simp
next
  case (2 idx a)
  show ?case by (simp add: build_lines_Cons del: build_lines.simps(2))
next
  case (3 idx a b as)
  have step: "str_join [10] (build_lines idx [] (a # b # as)) =
      rendered_article idx a @ [10] @ str_join [10] (build_lines (Suc idx) [] (b # as))"
    by (simp add: build_lines_Cons [of idx a] str_join_Cons build_lines_empty
        del: build_lines.simps(2))
  show ?case
    unfolding step "3.IH" by simp
qed

lemma build_articles_block_rendered: "build_articles_block articles = rendered_blocks 1 articles"
  by (simp add: build_articles_block_def lit_def str_join_build_lines)

lemma match_escaped_text:
  assumes "fst (match_placeholder cs) = Escaped"
  shows "cs = 36 # snd (match_placeholder cs)"
  using assms
  by (cases cs) (auto simp: match_placeholder_def split: if_splits)

lemma identifier_takeWhile_Cons:
  "is_id_start d \<Longrightarrow> is_identifier (takeWhile is_id_char (d # ds))"
  by (auto simp: is_identifier_def is_id_char_def list_all_iff dest: set_takeWhileD)

lemma dropWhile_head:
  "case dropWhile is_id_char xs of [] \<Rightarrow> True | c # _ \<Rightarrow> \<not> is_id_char c"
  by (induction xs) simp_all

lemma match_named_text:
  assumes "fst (match_placeholder cs) = Named n"
  shows "(cs = n @ snd (match_placeholder cs) \<and> is_identifier n \<and>
          (case snd (match_placeholder cs) of [] \<Rightarrow> True | c # _ \<Rightarrow> \<not> is_id_char c)) \<or>
         (cs = 123 # n @ 125 # snd (match_placeholder cs) \<and> is_identifier n)"
proof (cases cs)
  case Nil
  with assms show ?thesis by (simp add: match_placeholder_def)
next
  case (Cons d ds)
  show ?thesis
  proof (cases "d = 36")
    case True
    with assms Cons show ?thesis by (simp add: match_placeholder_def)
  next
    case nd: False
    show ?thesis
    proof (cases "is_id_start d")
      case True
      with nd Cons assms have n: "n = takeWhile is_id_char cs"
        and r: "snd (match_placeholder cs) = dropWhile is_id_char cs"
        by (simp_all add: match_placeholder_def)
      have "cs = n @ snd (match_placeholder cs)"
        by (simp add: n r)
      moreover have "is_identifier n"
        unfolding n Cons using True by (rule identifier_takeWhile_Cons)
      moreover have "case snd (match_placeholder cs) of [] \<Rightarrow> True | c # _ \<Rightarrow> \<not> is_id_char c"
        unfolding r by (rule dropWhile_head)
      ultimately show ?thesis by blast
    next
      case False
      with nd Cons assms have d: "d = 123"
        and s: "case ds of [] \<Rightarrow> False | x # _ \<Rightarrow> is_id_start x"
        and b: "case dropWhile is_id_char ds of [] \<Rightarrow> False | x # _ \<Rightarrow> x = 125"
        and n: "n = takeWhile is_id_char ds"
        and r: "snd (match_placeholder cs) = tl (dropWhile is_id_char ds)"
        by (auto simp: match_placeholder_def split: if_splits)
      from b have dw: "dropWhile is_id_char ds = 125 # snd (match_placeholder cs)"
        by (cases "dropWhile is_id_char ds") (simp_all add: r)
      have "ds = takeWhile is_id_char ds @ dropWhile is_id_char ds"
        by simp
      then have "cs = 123 # n @ 125 # snd (match_placeholder cs)"
        unfolding dw by (simp add: Cons d n)
      moreover from s obtain x xs where "ds = x # xs" and "is_id_start x"
        by (cases ds) auto
      then have "is_identifier n"
        unfolding n by (simp only: identifier_takeWhile_Cons)
      ultimately show ?thesis by blast
    qed
  qed
qed

lemma substitute_plain:
  "c \<noteq> 36 \<Longrightarrow>
     substitute m (c # cs) = (case substitute m cs of Inl e \<Rightarrow> Inl e | Inr r \<Rightarrow> Inr (c # r))"
  by (simp add: substitute.simps(2))

lemma substitute_text:
  "36 \<notin> set s \<Longrightarrow>
     substitute m (s @ rest) = (case substitute m rest of Inl e \<Rightarrow> Inl e | Inr r \<Rightarrow> Inr (s @ r))"
  by (induction s) (auto simp: substitute_plain split: sum.splits)

lemma id_char_not_dollar: "is_id_char c \<Longrightarrow> c \<noteq> 36"
  by (auto simp: is_id_char_def is_id_start_def)

lemma identifier_takeWhile:
  assumes "is_identifier n" and "case rest of [] \<Rightarrow> True | c # _ \<Rightarrow> \<not> is_id_char c"
  shows "takeWhile is_id_char (n @ rest) = n" and "dropWhile is_id_char (n @ rest) = rest"
proof -
  from assms(1) have all: "\<forall>c \<in> set n. is_id_char c"
    by (auto simp: is_identifier_def is_id_char_def list_all_iff split: list.splits)
  from assms(2) have t: "takeWhile is_id_char rest = []" and d: "dropWhile is_id_char rest = rest"
    by (auto split: list.splits)
  from all t show "takeWhile is_id_char (n @ rest) = n"
    by (simp)
  from all d show "dropWhile is_id_char (n @ rest) = rest"
    by (simp)
qed

lemma match_named:
  assumes "is_identifier n" and "case rest of [] \<Rightarrow> True | c # _ \<Rightarrow> \<not> is_id_char c"
  shows "match_placeholder (n @ rest) = (Named n, rest)"
proof -
  from assms(1) obtain c cs where n: "n = c # cs" and c: "is_id_start c"
    by (auto simp: is_identifier_def split: list.splits)
  from c have "c \<noteq> 36"
    by (auto simp: is_id_start_def)
  with n c identifier_takeWhile [OF assms] show ?thesis
    by (simp add: match_placeholder_def)
qed

lemma match_braced:
  assumes "is_identifier n"
  shows "match_placeholder (123 # n @ 125 # rest) = (Named n, rest)"
proof -
  from assms obtain c cs where n: "n = c # cs" and c: "is_id_start c"
    by (auto simp: is_identifier_def split: list.splits)
  have b: "case 125 # rest of [] \<Rightarrow> True | c # _ \<Rightarrow> \<not> is_id_char c"
    by (simp add: is_id_char_def is_id_start_def)
  have "\<not> is_id_start 123"
    by (simp add: is_id_start_def)
  with n c identifier_takeWhile [OF assms b] show ?thesis
    by (simp add: match_placeholder_def)
qed

lemma match_escaped: "match_placeholder (36 # rest) = (Escaped, rest)"
  by (simp add: match_placeholder_def)

lemma substitute_template:
  assumes "well_formed segs" and "\<And>n y. m n = Some y \<Longrightarrow> v n = y"
  shows "substitute m (template_text segs) =
           (case find (\<lambda>n. m n = None) (placeholder_names segs) of
              None \<Rightarrow> Inr (rendered v segs)
            | Some n \<Rightarrow> Inl (KeyError n))"
  using assms(1)
proof (induction segs rule: template_text.induct)
  case 1
  then show ?case by simp
next
  case (2 s segs)
  then show ?case
    by (simp add: substitute_text split: option.splits)
next
  case (3 n segs)
  then have "match_placeholder (n @ template_text segs) = (Named n, template_text segs)"
    by (simp add: match_named)
  with 3 show ?case
    by (auto simp: substitute.simps(2) assms(2) split: option.splits)
next
  case (4 n segs)
  then have "match_placeholder (123 # n @ 125 # template_text segs) = (Named n, template_text segs)"
    by (simp add: match_braced)
  with 4 show ?case
    by (auto simp: substitute.simps(2) assms(2) split: option.splits)
next
  case (5 segs)
  then show ?case
    by (simp add: substitute.simps(2) match_escaped split: option.splits)
qed


lemma str_nat_four_digits:
  assumes "1000 \<le> y" and "y \<le> 9999"
  shows "str_nat y =
           [digit (y div 1000), digit (y div 100 mod 10), digit (y div 10 mod 10), digit (y mod 10)]"
proof -
  have q1: "\<not> y < 10"
    using assms(1) by simp
  have q2: "\<not> y div 10 < 10"
    using div_le_mono [of 1000 y 10] assms(1) by simp
  have q3: "\<not> y div 100 < 10"
    using div_le_mono [of 1000 y 100] assms(1) by simp
  have q4: "y div 1000 < 10"
    using assms(2) by (simp add: less_mult_imp_div_less)
  have e: "y div 10 div 10 = y div 100" "y div 100 div 10 = y div 1000"
    by (simp_all add: div_mult2_eq [symmetric])
  have a: "str_nat y = str_nat (y div 10) @ [digit (y mod 10)]"
    by (subst str_nat.simps) (simp add: q1)
  have b: "str_nat (y div 10) = str_nat (y div 100) @ [digit (y div 10 mod 10)]"
    by (subst str_nat.simps) (simp add: q2 e)
  have c: "str_nat (y div 100) = str_nat (y div 1000) @ [digit (y div 100 mod 10)]"
    by (subst str_nat.simps) (simp add: q3 e)
  have d: "str_nat (y div 1000) = [digit (y div 1000)]"
    by (subst str_nat.simps) (simp add: q4)
  show ?thesis
    by (simp add: a b c d)
qed

lemma digit_is_digit: "d < 10 \<Longrightarrow> is_digit (digit d)"
  by (simp add: is_digit_def digit_def)

lemma get_today_str_iso:
  assumes "valid_date now"
  shows "get_today_str now = iso_date now"
proof -
  from assms have y: "1000 \<le> year now" "year now \<le> 9999"
    by (simp_all add: valid_date_def)
  show ?thesis
    by (simp add: get_today_str_def iso_date_def str_nat_four_digits [OF y] two_digits_def lit_def)
qed

lemma iso_date_has_form:
  assumes "valid_date now"
  shows "iso_date_form (iso_date now)"
proof -
  from assms have y: "year now \<le> 9999" and m: "month now \<le> 12" and d: "day now \<le> 31"
    by (simp_all add: valid_date_def)
  have y1: "year now div 1000 < 10"
    using y by (simp add: less_mult_imp_div_less)
  have m1: "month now div 10 < 10" and d1: "day now div 10 < 10"
    using m d by (simp_all add: less_mult_imp_div_less)
  show ?thesis
    unfolding iso_date_def iso_date_form_def
    by (simp add: digit_is_digit y1 m1 d1)
qed

lemma substitute_Inr_segments:
  "substitute m t = Inr r \<Longrightarrow>
     \<exists>segs. well_formed segs \<and> template_text segs = t \<and>
            (\<forall>n \<in> set (placeholder_names segs). m n \<noteq> None)"
proof (induction m t arbitrary: r rule: substitute.induct)
  case (1 m)
  have "well_formed [] \<and> template_text [] = [] \<and>
      (\<forall>n \<in> set (placeholder_names []). m n \<noteq> None)"
    by simp
  then show ?case by blast
next
  case (2 m c cs)
  show ?case
  proof (cases "c = 36")
    case False
    with "2.prems" obtain r' where "substitute m cs = Inr r'"
      by (auto simp: substitute_plain split: sum.splits)
    from "2.IH"(1) [OF False this] obtain segs where
      segs: "well_formed segs" "template_text segs = cs"
        "\<forall>n \<in> set (placeholder_names segs). m n \<noteq> None"
      by blast
    have "well_formed (Text [c] # segs) \<and> template_text (Text [c] # segs) = c # cs \<and>
        (\<forall>n \<in> set (placeholder_names (Text [c] # segs)). m n \<noteq> None)"
      using False segs by simp
    then show ?thesis by blast
  next
    case True
    then have dollar: "\<not> c \<noteq> 36" by simp
    let ?rest = "snd (match_placeholder cs)"
    show ?thesis
    proof (cases "fst (match_placeholder cs)")
      case Invalid
      with True "2.prems" show ?thesis
        by (simp add: substitute.simps(2))
    next
      case Escaped
      with True "2.prems" obtain r' where "substitute m ?rest = Inr r'"
        by (auto simp: substitute.simps(2) split: sum.splits)
      from "2.IH"(2) [OF dollar Escaped this] obtain segs where
        segs: "well_formed segs" "template_text segs = ?rest"
          "\<forall>n \<in> set (placeholder_names segs). m n \<noteq> None"
        by blast
      have cs: "cs = 36 # ?rest"
        using Escaped by (rule match_escaped_text)
      have "template_text (Dollar # segs) = c # cs"
        using True segs(2) cs by simp
      with segs have "well_formed (Dollar # segs) \<and> template_text (Dollar # segs) = c # cs \<and>
          (\<forall>n \<in> set (placeholder_names (Dollar # segs)). m n \<noteq> None)"
        by simp
      then show ?thesis by blast
    next
      case (Named n)
      with True "2.prems" obtain v where v: "m n = Some v"
        by (cases "m n") (auto simp: substitute.simps(2))
      with Named True "2.prems" obtain r' where "substitute m ?rest = Inr r'"
        by (auto simp: substitute.simps(2) split: sum.splits)
      from "2.IH"(3) [OF dollar Named v this] obtain segs where
        segs: "well_formed segs" "template_text segs = ?rest"
          "\<forall>n \<in> set (placeholder_names segs). m n \<noteq> None"
        by blast
      from match_named_text [OF Named] show ?thesis
      proof
        assume plain: "cs = n @ ?rest \<and> is_identifier n \<and>
          (case ?rest of [] \<Rightarrow> True | c # _ \<Rightarrow> \<not> is_id_char c)"
        then have "template_text (Placeholder n # segs) = c # cs"
          using True segs(2) by simp
        moreover have "well_formed (Placeholder n # segs)"
          using plain segs(1,2) by simp
        moreover have "\<forall>k \<in> set (placeholder_names (Placeholder n # segs)). m k \<noteq> None"
          using segs(3) v by simp
        ultimately show ?thesis by blast
      next
        assume braced: "cs = 123 # n @ 125 # ?rest \<and> is_identifier n"
        then have "template_text (BracedPlaceholder n # segs) = c # cs"
          using True segs(2) by simp
        moreover have "well_formed (BracedPlaceholder n # segs)"
          using braced segs(1) by simp
        moreover have "\<forall>k \<in> set (placeholder_names (BracedPlaceholder n # segs)). m k \<noteq> None"
          using segs(3) v by simp
        ultimately show ?thesis by blast
      qed
    qed
  qed
qed

lemma layout_segments_text:
  "well_formed layout_segments"
  "prompt_template layout_globals = template_text layout_segments"
  by (simp_all add: layout_segments_def layout_globals_def is_identifier_def is_id_start_def
      is_id_char_def lit_def)

lemma unknown_segments_text:
  "well_formed unknown_segments"
  "prompt_template unknown_globals = template_text unknown_segments"
  by (simp_all add: unknown_segments_def unknown_globals_def is_identifier_def is_id_start_def
      is_id_char_def lit_def)

lemma example_date_valid: "valid_date example_date"
  by (simp add: valid_date_def example_date_def)



lemma rendered_example_article:
  "rendered_article (Suc 0) example_article =
     lit ''1. Title: T\<newline>   Source: A\<newline>   Published: 2025-03-08\<newline>   URL: http://a/1\<newline>   Summary/Excerpt: S\<newline>''"
  by (simp add: rendered_article_def example_article_def str_nat.simps digit_def lit_def)

lemma iso_date_example: "iso_date example_date = lit ''2025-03-09''"
  by (simp add: iso_date_def example_date_def digit_def lit_def)

text \<open>
  Claim C6, as stated: every template whose placeholders are \<open>$today\<close> and
  \<open>$articles_block\<close> is rendered. It fails for the template
  \<open>Cost: $5 on $today ${articles_block}\<close>, which has these two placeholders and a
  \<open>$\<close> that starts neither a placeholder nor an escape: \<open>substitute\<close> raises the
  \<open>ValueError\<close> of an invalid placeholder.
\<close>

theorem build_llm_prompt_stray_dollar_counterexample:
  "build_llm_prompt stray_dollar_globals example_date [example_article] = Inl InvalidPlaceholder"
  by (simp add: build_llm_prompt_def stray_dollar_globals_def example_globals_def)
     (simp add: lit_def substitute.simps(2) match_placeholder_def is_id_start_def is_id_char_def)

text \<open>
  Claim C6, amended. For a template in which every \<open>$\<close> starts the escape \<open>$$\<close> or a
  placeholder \<open>$name\<close> or \<open>${name}\<close>, and a date of the calendar, \<open>build_llm_prompt\<close>
  returns the text of the template in its own layout, with every \<open>today\<close> placeholder
  replaced by today's UTC date in the form \<open>YYYY-MM-DD\<close>, every \<open>articles_block\<close>
  placeholder by exactly the rendered article block and every escape by one \<open>$\<close>, when
  the template names no other placeholder; when it does, the substitution fails with the
  \<open>KeyError\<close> of the first other name (the template error of the specification). No
  other template is rendered: a call that returns has such a template with no other name.
\<close>

theorem build_llm_prompt_substitutes:
  "(well_formed segs \<and> prompt_template g = template_text segs \<and> valid_date now \<longrightarrow>
      build_llm_prompt g now articles =
        (case find (\<lambda>n. n \<noteq> lit ''today'' \<and> n \<noteq> lit ''articles_block'')
                (placeholder_names segs) of
           None \<Rightarrow>
             Inr (rendered (\<lambda>n. if n = lit ''today'' then iso_date now
                                 else rendered_blocks 1 articles) segs)
         | Some n \<Rightarrow> Inl (KeyError n))) \<and>
   (valid_date now \<longrightarrow> iso_date_form (iso_date now)) \<and>
   (build_llm_prompt g now articles = Inr prompt \<longrightarrow>
      (\<exists>segs'. well_formed segs' \<and> prompt_template g = template_text segs' \<and>
         set (placeholder_names segs') \<subseteq> {lit ''today'', lit ''articles_block''}))"
proof -
  let ?m = "[lit ''today'' \<mapsto> get_today_str now,
             lit ''articles_block'' \<mapsto> build_articles_block articles]"
  let ?v = "\<lambda>n. if n = lit ''today'' then iso_date now else rendered_blocks 1 articles"
  have ne: "lit ''articles_block'' \<noteq> lit ''today''"
    by (simp add: lit_def)
  have none: "(?m n = None) = (n \<noteq> lit ''today'' \<and> n \<noteq> lit ''articles_block'')" for n
    by auto
  have run: "build_llm_prompt g now articles = substitute ?m (prompt_template g)"
    by (simp add: build_llm_prompt_def)
  have a: "well_formed segs \<and> prompt_template g = template_text segs \<and> valid_date now \<longrightarrow>
      build_llm_prompt g now articles =
        (case find (\<lambda>n. n \<noteq> lit ''today'' \<and> n \<noteq> lit ''articles_block'')
                (placeholder_names segs) of
           None \<Rightarrow> Inr (rendered ?v segs)
         | Some n \<Rightarrow> Inl (KeyError n))"
  proof
    assume h: "well_formed segs \<and> prompt_template g = template_text segs \<and> valid_date now"
    then have wf: "well_formed segs" and t: "prompt_template g = template_text segs"
      and d: "valid_date now"
      by simp_all
    have v: "?v n = y" if "?m n = Some y" for n y
      using that ne get_today_str_iso [OF d] build_articles_block_rendered [of articles]
      by (auto split: if_splits)
    have "substitute ?m (template_text segs) =
        (case find (\<lambda>n. ?m n = None) (placeholder_names segs) of
              None \<Rightarrow> Inr (rendered ?v segs)
            | Some n \<Rightarrow> Inl (KeyError n))"
      using wf v by (rule substitute_template)
    then show "build_llm_prompt g now articles =
        (case find (\<lambda>n. n \<noteq> lit ''today'' \<and> n \<noteq> lit ''articles_block'')
                (placeholder_names segs) of
           None \<Rightarrow> Inr (rendered ?v segs)
         | Some n \<Rightarrow> Inl (KeyError n))"
      unfolding run t by (simp only: none)
  qed
  have b: "valid_date now \<longrightarrow> iso_date_form (iso_date now)"
    by (rule impI) (rule iso_date_has_form)
  have c: "build_llm_prompt g now articles = Inr prompt \<longrightarrow>
      (\<exists>segs'. well_formed segs' \<and> prompt_template g = template_text segs' \<and>
         set (placeholder_names segs') \<subseteq> {lit ''today'', lit ''articles_block''})"
  proof
    assume "build_llm_prompt g now articles = Inr prompt"
    then have "substitute ?m (prompt_template g) = Inr prompt"
      by (simp only: run)
    from substitute_Inr_segments [OF this] obtain segs' where
      wf: "well_formed segs'" and t: "template_text segs' = prompt_template g"
      and known: "\<forall>n \<in> set (placeholder_names segs'). ?m n \<noteq> None"
      by blast
    have "set (placeholder_names segs') \<subseteq> {lit ''today'', lit ''articles_block''}"
    proof
      fix n
      assume "n \<in> set (placeholder_names segs')"
      with known have "?m n \<noteq> None" ..
      then show "n \<in> {lit ''today'', lit ''articles_block''}"
        by (simp only: none) simp
    qed
    with wf t show "\<exists>segs'. well_formed segs' \<and> prompt_template g = template_text segs' \<and>
         set (placeholder_names segs') \<subseteq> {lit ''today'', lit ''articles_block''}"
      by metis
  qed
  show ?thesis
    by (rule conjI [OF a conjI [OF b c]])
qed

theorem build_llm_prompt_substitutes_witness:
  "well_formed layout_segments \<and>
   prompt_template layout_globals = template_text layout_segments \<and>
   valid_date example_date \<and>
   build_llm_prompt layout_globals example_date [example_article] =
     Inr (lit ''Date: 2025-03-09\<newline>1. Title: T\<newline>   Source: A\<newline>   Published: 2025-03-08\<newline>   URL: http://a/1\<newline>   Summary/Excerpt: S\<newline>\<newline>Cost: $0'') \<and>
   well_formed unknown_segments \<and>
   prompt_template unknown_globals = template_text unknown_segments \<and>
   build_llm_prompt unknown_globals example_date [example_article] = Inl (KeyError (lit ''author'')) \<and>
   iso_date_form (iso_date example_date)"
proof -
  have n: "lit ''articles_block'' \<noteq> lit ''today''" "lit ''author'' \<noteq> lit ''today''"
    "lit ''author'' \<noteq> lit ''articles_block''"
    by (simp_all add: lit_def)
  note l = build_llm_prompt_substitutes [of layout_segments layout_globals example_date
      "[example_article]", THEN conjunct1, THEN mp,
      OF conjI [OF layout_segments_text(1) conjI [OF layout_segments_text(2) example_date_valid]]]
  note u = build_llm_prompt_substitutes [of unknown_segments unknown_globals example_date
      "[example_article]", THEN conjunct1, THEN mp,
      OF conjI [OF unknown_segments_text(1) conjI [OF unknown_segments_text(2) example_date_valid]]]
  note f = build_llm_prompt_substitutes [of layout_segments layout_globals example_date
      "[example_article]", THEN conjunct2, THEN conjunct1, THEN mp, OF example_date_valid]
  have l1: "build_llm_prompt layout_globals example_date [example_article] =
     Inr (lit ''Date: 2025-03-09\<newline>1. Title: T\<newline>   Source: A\<newline>   Published: 2025-03-08\<newline>   URL: http://a/1\<newline>   Summary/Excerpt: S\<newline>\<newline>Cost: $0'')"
    unfolding l by (simp add: layout_segments_def n iso_date_example rendered_example_article)
      (simp add: lit_def)
  have u1: "build_llm_prompt unknown_globals example_date [example_article] =
      Inl (KeyError (lit ''author''))"
    unfolding u by (simp add: unknown_segments_def n)
  from layout_segments_text unknown_segments_text example_date_valid l1 u1 f show ?thesis
    by simp
qed

end
